theory Spec2Isabelle
  imports Main "HOL-Library.AList"
begin

section \<open>JavaScript values and objects\<close>

text \<open>
  The hook \<^verbatim>\<open>useFormBuilder\<close> works on untyped records (\<^verbatim>\<open>any\<close>): snapshots, the edit
  buffer, parameter bags. A value is \<^verbatim>\<open>undefined\<close>, \<^verbatim>\<open>null\<close>, a boolean, a number, a string
  or an object. The only number the hook itself writes is \<^verbatim>\<open>0\<close>, so numbers are integers
  here. An object is its list of own properties in insertion order; the keys of a
  JavaScript object are distinct, so copying an object (\<^verbatim>\<open>{...a}\<close>) is the identity on it.
  Arrays and functions do not occur as field values, and the own properties of a
  primitive string (its characters) are left out: records are objects, \<^verbatim>\<open>null\<close> or
  \<^verbatim>\<open>undefined\<close>.
\<close>

datatype jsval =
    Undefined
  | Null
  | JBool bool
  | JNum int
  | JStr string
  | JObj "(string \<times> jsval) list"

type_synonym obj = "(string \<times> jsval) list"

text \<open>\<^verbatim>\<open>x == null\<close>: true of \<^verbatim>\<open>null\<close> and of \<^verbatim>\<open>undefined\<close>.\<close>

definition nullish :: "jsval \<Rightarrow> bool" where
  "nullish v = (v = Undefined \<or> v = Null)"

text \<open>Own enumerable properties, as \<^verbatim>\<open>Object.keys\<close> and the spread \<^verbatim>\<open>...x\<close> see them.\<close>

definition entries :: "jsval \<Rightarrow> obj" where
  "entries v = (case v of JObj kvs \<Rightarrow> kvs | _ \<Rightarrow> [])"

text \<open>\<^verbatim>\<open>o[k]\<close> on an object: the property, or \<^verbatim>\<open>undefined\<close> when it has none.\<close>

definition obj_get :: "obj \<Rightarrow> string \<Rightarrow> jsval" where
  "obj_get kvs k = (case map_of kvs k of None \<Rightarrow> Undefined | Some v \<Rightarrow> v)"

text \<open>
  \<^verbatim>\<open>x[k]\<close> on any value: reading a property of \<^verbatim>\<open>undefined\<close> or \<^verbatim>\<open>null\<close> throws a
  \<^verbatim>\<open>TypeError\<close>.
\<close>

datatype error = TypeError

definition get_prop :: "jsval \<Rightarrow> string \<Rightarrow> error + jsval" where
  "get_prop v k =
     (case v of
        Undefined \<Rightarrow> Inl TypeError
      | Null \<Rightarrow> Inl TypeError
      | JObj kvs \<Rightarrow> Inr (obj_get kvs k)
      | _ \<Rightarrow> Inr Undefined)"

text \<open>
  \<^verbatim>\<open>{...a, ...b}\<close>: the properties of \<^verbatim>\<open>b\<close> are assigned over those of \<^verbatim>\<open>a\<close>, one by one;
  an existing key keeps its place and takes the new value.
\<close>

definition assign_all :: "obj \<Rightarrow> obj \<Rightarrow> obj" where
  "assign_all a b = fold (\<lambda>kv acc. AList.update (fst kv) (snd kv) acc) b a"

text \<open>
  \<^verbatim>\<open>xs.reduce((a, b) => ({ ...a, [b.field]: b.value }), {})\<close> over a list of
  \<^verbatim>\<open>{field, value}\<close> pairs (the type \<^verbatim>\<open>FieldValue\<close>).
\<close>

type_synonym FieldValue = "string \<times> jsval"

definition reduce_fields :: "FieldValue list \<Rightarrow> obj" where
  "reduce_fields xs = assign_all [] xs"

section \<open>Metadata\<close>

text \<open>
  \<^verbatim>\<open>MetadataResponse\<close> is declared in \<^verbatim>\<open>../api/MetadataResponse\<close>; the hook reads these
  members of it. A field's type is a string, compared with string literals.
\<close>

record MetadataField =
  name :: string
  ftype :: string
  isNullable :: bool
  isRequired :: bool
  displayName :: string
  lookupTable :: string
  lookupTableNameField :: string

record MetadataResponse =
  tableName :: string
  md_fields :: "MetadataField list"

section \<open>Effects\<close>

text \<open>
  Calls to collaborators that the synthesizer makes are recorded in order. The other
  effects of the hook are added below.
\<close>

datatype lookup_call =
  GetLookupLabel string string string jsval

section \<open>Default values: \<^verbatim>\<open>getClearedValues\<close>\<close>

definition is_numeric :: "string \<Rightarrow> bool" where
  "is_numeric t =
     (t = ''Single'' \<or> t = ''Int32'' \<or> t = ''Int64'' \<or> t = ''Double'' \<or> t = ''Decimal'')"

definition numericDefaults :: "MetadataResponse \<Rightarrow> FieldValue list" where
  "numericDefaults md =
     map (\<lambda>f. (name f, if isNullable f then JStr [] else JNum 0))
       (filter (\<lambda>f. is_numeric (ftype f)) (md_fields md))"

definition stringDefaults :: "MetadataResponse \<Rightarrow> FieldValue list" where
  "stringDefaults md =
     map (\<lambda>f. (name f, JStr []))
       (filter (\<lambda>f. ftype f = ''String'' \<or> ftype f = ''Guid'') (md_fields md))"

definition booleanDefaults :: "MetadataResponse \<Rightarrow> FieldValue list" where
  "booleanDefaults md =
     map (\<lambda>f. (name f, JBool False)) (filter (\<lambda>f. ftype f = ''Boolean'') (md_fields md))"

text \<open>
  \<^verbatim>\<open>defaultDate\<close> is \<^verbatim>\<open>new Date()\<close> with its UTC time of day set to zero, printed by
  \<^verbatim>\<open>toISOString\<close>. The clock is outside the program: the printed start of the current
  day is the parameter \<open>today\<close>.
\<close>

definition dateDefaults :: "string \<Rightarrow> MetadataResponse \<Rightarrow> FieldValue list" where
  "dateDefaults today md =
     map (\<lambda>f. (name f, if isNullable f then Null else JStr today))
       (filter (\<lambda>f. ftype f = ''DateTime'') (md_fields md))"

text \<open>
  \<^verbatim>\<open>props.defaults?.find((x) => x.field === field.name)?.value ?? null\<close>: the value of the
  first caller default for the field, \<^verbatim>\<open>null\<close> when there is none or when it is
  \<^verbatim>\<open>undefined\<close> or \<^verbatim>\<open>null\<close>.
\<close>

definition lookupDefault :: "FieldValue list option \<Rightarrow> string \<Rightarrow> jsval" where
  "lookupDefault defaults n =
     (case defaults of
        None \<Rightarrow> Null
      | Some ds \<Rightarrow>
          (case find (\<lambda>x. fst x = n) ds of
             None \<Rightarrow> Null
           | Some x \<Rightarrow> (if nullish (snd x) then Null else snd x)))"

definition nullableLookupDefaults ::
  "FieldValue list option \<Rightarrow> MetadataResponse \<Rightarrow> FieldValue list" where
  "nullableLookupDefaults defaults md =
     map (\<lambda>f. (name f, lookupDefault defaults (name f)))
       (filter (\<lambda>f. ftype f = ''Lookup'') (md_fields md))"

text \<open>
  The loop that asks the lookup store for the label of every caller default of a lookup
  field: one call per lookup field and matching default, in field order.
\<close>

definition lookupLabelCalls ::
  "FieldValue list option \<Rightarrow> MetadataResponse \<Rightarrow> lookup_call list" where
  "lookupLabelCalls defaults md =
     concat (map (\<lambda>f.
        if ftype f = ''Lookup'' then
          (case defaults of
             None \<Rightarrow> []
           | Some ds \<Rightarrow>
               map (\<lambda>d. GetLookupLabel (name f) (lookupTable f) (lookupTableNameField f) (snd d))
                 (filter (\<lambda>d. fst d = name f) ds))
        else []) (md_fields md))"

definition ui_info_default :: jsval where
  "ui_info_default = JObj [(''canUpdate'', JBool True), (''canDelete'', JBool True)]"

definition clearedValues :: "FieldValue list option \<Rightarrow> string \<Rightarrow> MetadataResponse \<Rightarrow> obj" where
  "clearedValues defaults today md =
     AList.update ''_ui_info_'' ui_info_default
       (assign_all
         (assign_all
           (assign_all
             (assign_all
               (assign_all [] (reduce_fields (numericDefaults md)))
               (reduce_fields (stringDefaults md)))
             (reduce_fields (booleanDefaults md)))
           (reduce_fields (dateDefaults today md)))
         (reduce_fields (nullableLookupDefaults defaults md)))"

definition getClearedValues ::
  "FieldValue list option \<Rightarrow> string \<Rightarrow> MetadataResponse \<Rightarrow> lookup_call list \<times> obj" where
  "getClearedValues defaults today md =
     (lookupLabelCalls defaults md, clearedValues defaults today md)"

section \<open>The edit buffer: \<^verbatim>\<open>getInitialData\<close>\<close>

text \<open>
  The test that lets a snapshot key through: its value is not \<^verbatim>\<open>null\<close>, and it is a
  field of the metadata, the key \<^verbatim>\<open>_ui_info_\<close>, or the table's identifier.
\<close>

definition keeps_key :: "string \<Rightarrow> MetadataResponse \<Rightarrow> obj \<Rightarrow> string \<Rightarrow> bool" where
  "keeps_key tname md snap k =
     (obj_get snap k \<noteq> Null \<and>
      (find (\<lambda>x. name x = k) (md_fields md) \<noteq> None \<or>
       k \<in> set [''_ui_info_''] \<or>
       k = tname @ ''Id''))"

definition dataToUpdate :: "string \<Rightarrow> MetadataResponse \<Rightarrow> obj \<Rightarrow> obj" where
  "dataToUpdate tname md snap =
     fold (\<lambda>k object. if keeps_key tname md snap k
                        then AList.update k (obj_get snap k) object else object)
       (map fst snap) []"

text \<open>
  \<^verbatim>\<open>getInitialData(metadata, snapshot)\<close>. It returns \<^verbatim>\<open>undefined\<close> when the metadata is
  \<^verbatim>\<open>undefined\<close> and when the snapshot is \<^verbatim>\<open>null\<close>: neither branch is taken then.
\<close>

definition getInitialData ::
  "string \<Rightarrow> FieldValue list option \<Rightarrow> string \<Rightarrow> MetadataResponse option \<Rightarrow> jsval
     \<Rightarrow> lookup_call list \<times> jsval" where
  "getInitialData tname defaults today metadata snapshot =
     (case metadata of
        None \<Rightarrow> ([], Undefined)
      | Some md \<Rightarrow>
          if snapshot = Undefined then
            (fst (getClearedValues defaults today md),
             JObj (assign_all (snd (getClearedValues defaults today md))
                     (case defaults of None \<Rightarrow> [] | Some ds \<Rightarrow> reduce_fields ds)))
          else if snapshot \<noteq> Null then
            (fst (getClearedValues defaults today md),
             JObj (assign_all (snd (getClearedValues defaults today md))
                     (dataToUpdate tname md (entries snapshot))))
          else ([], Undefined))"

section \<open>Props, container state and actions\<close>

text \<open>
  \<^verbatim>\<open>SaveEventResponse\<close>: what a pre-save hook returns. The parameters are spread into the
  parameter bag.
\<close>

record SaveEventResponse =
  continue :: bool
  parameters :: jsval

text \<open>
  The members of \<^verbatim>\<open>useFormBuilderProps\<close> that the modelled functions read. The post-save
  hook returns nothing, so only whether one was given matters; its calls are recorded.
\<close>

record Props =
  props_tableName :: string
  props_id :: jsval
  props_metadata :: "MetadataResponse option"
  props_defaults :: "FieldValue list option"
  props_snapshot :: jsval
  props_canUpdate :: "bool option"
  props_canCreate :: "bool option"
  props_onPreSave :: "(jsval \<Rightarrow> SaveEventResponse) option"
  props_onPostSave :: bool
  props_forceShowLoading :: "bool option"

type_synonym ValidationMessage = "string \<times> string"

text \<open>
  The state that \<^verbatim>\<open>useReducer(formbuilderReducer, ...)\<close> holds. Its declaration is in
  \<^verbatim>\<open>../reducers/formbuilderReducer\<close>; these are the members the hook reads.
\<close>

record FormState =
  metadata :: "MetadataResponse option"
  snapshot :: jsval
  data :: jsval
  dirtyFields :: "string list"
  validationMessages :: "ValidationMessage list"
  stype :: string
  canUpdate :: jsval
  canCreate :: bool
  canRead :: "bool \<times> string"
  isLoading :: bool
  forceIsLoading :: bool
  isSubmitted :: bool

record StartLoad =
  sl_tableName :: string
  sl_data :: jsval
  sl_forceIsLoading :: bool

record LoadComplete =
  lc_metadata :: "MetadataResponse option"
  lc_snapshot :: jsval
  lc_data :: jsval
  lc_canUpdate :: jsval
  lc_canCreate :: bool
  lc_canRead :: "bool \<times> string"

record DataToEdit =
  de_data :: jsval
  de_snapshot :: jsval
  de_canUpdate :: "bool option"
  de_forceIsLoading :: bool

text \<open>The actions that the modelled functions dispatch, with their payloads.\<close>

datatype action =
    START_INITIAL_LOAD StartLoad
  | INITIAL_LOAD_COMPLETE LoadComplete
  | SET_DATA_TO_EDIT DataToEdit
  | SET_IS_LOADING
  | SUBMIT_CANCELLED
  | SUBMIT_COMPLETE
  | SET_VALIDATION_MESSAGES "ValidationMessage list"

section \<open>Collaborators and effects\<close>

record ReadRequest =
  rr_tableName :: string
  rr_fields :: "string list"
  rr_maxResults :: nat
  rr_page :: nat
  rr_id :: jsval

text \<open>
  The two endpoints are constants of \<^verbatim>\<open>../apiurls\<close>; they are kept as names.
\<close>

datatype api_url = API_DATA_CREATE | API_DATA_UPDATE

datatype http_method = POST | PATCH

record ExecuteRequest =
  url :: api_url
  http :: http_method
  body_tableName :: jsval
  body_fields :: jsval
  body_parameters :: jsval

text \<open>A response, when there is one: \<^verbatim>\<open>{succeeded, data}\<close>.\<close>

record 'a Response =
  succeeded :: bool
  resp_data :: 'a

text \<open>
  What the hook is given by its surroundings: the clock, \<^verbatim>\<open>authRequest\<close> (metadata, read,
  execute; a call may yield no response), the permission store (the \<^verbatim>\<open>create\<close> level of a
  table) and \<^verbatim>\<open>guid.validate\<close>. The rows of a read are \<^verbatim>\<open>data.results\<close>, which may be
  \<^verbatim>\<open>null\<close>. Every call returns: a call that rejects is not among the runs described here.
\<close>

record Env =
  env_today :: string
  fetchMetadata :: "string \<Rightarrow> MetadataResponse option"
  readRecords :: "ReadRequest \<Rightarrow> jsval list option Response option"
  execute :: "ExecuteRequest \<Rightarrow> jsval Response option"
  createPermission :: "string \<Rightarrow> string"
  guidValidate :: "jsval \<Rightarrow> bool"

text \<open>
  Updates of the \<^verbatim>\<open>snapshotQueue\<close> state: \<^verbatim>\<open>setSnapshotQueue((prev) => [...prev, s])\<close>,
  \<^verbatim>\<open>setSnapshotQueue([])\<close>, and \<^verbatim>\<open>snapshotQueue.pop()\<close>, which removes the last entry of the
  array in place.
\<close>

datatype queue_update = Append jsval | Replace "jsval list" | Pop

text \<open>
  Everything a function of the hook does besides returning: the actions it dispatches,
  the queue updates it requests and the calls it makes, in order. A listener is named by
  its position in \<^verbatim>\<open>eventListeners\<close>. \<open>RunValidate\<close> marks a call of \<^verbatim>\<open>onValidate\<close> from
  \<^verbatim>\<open>onSave\<close>.
\<close>

datatype effect =
    Dispatch action
  | SetSnapshotQueue queue_update
  | LookupLabel lookup_call
  | FetchMetadata string
  | ReadRecords ReadRequest
  | GetTablePermissions string
  | RefreshDataTable string
  | Execute ExecuteRequest
  | RunValidate
  | ConsoleWarn string
  | CallPreValidate jsval
  | CallOnPreSave jsval
  | CallListener nat "jsval list"
  | CallPreSaveEvent jsval
  | CallOnPostSave jsval jsval jsval
  | CallPostSaveEvent jsval jsval jsval

text \<open>
  A run of a function: its effects, and its result or the error it threw. Effects made
  before a throw stay.
\<close>

type_synonym 'a run = "effect list \<times> (error + 'a)"

definition after :: "effect list \<Rightarrow> 'a run \<Rightarrow> 'a run" where
  "after es r = (es @ fst r, snd r)"

text \<open>
  A listener registered with \<^verbatim>\<open>on(eventName, callback)\<close>. A \<^verbatim>\<open>PRE_SAVE\<close> callback is
  called with the submission data and the parameter bag, and its result is compared
  with \<^verbatim>\<open>false\<close>. Callbacks and hooks do not change the objects they are handed.
\<close>

type_synonym FBEvent = "string \<times> (jsval \<Rightarrow> jsval \<Rightarrow> jsval)"

text \<open>
  The bindings one render of the component gives to the functions it creates.
  \<^verbatim>\<open>state\<close> and \<^verbatim>\<open>snapshotQueue\<close> are the constants bound by \<^verbatim>\<open>useReducer\<close> and
  \<^verbatim>\<open>useState\<close> in that render: \<^verbatim>\<open>dispatch\<close> and \<^verbatim>\<open>setSnapshotQueue\<close> ask for a new render and
  leave them as they are, so a function reads the same \<^verbatim>\<open>state\<close> from its first line to
  its last. A dependent table is named by its \<^verbatim>\<open>dataTableId\<close>.
\<close>

record Hook =
  props :: Props
  state :: FormState
  snapshotQueue :: "jsval list"
  childDataTables :: "string list"
  eventListeners :: "FBEvent list"
  requiredFields :: "string list"

text \<open>\<^verbatim>\<open>getInitialData\<close> and its lookup calls, with the props and clock of the hook.\<close>

definition initialData :: "Hook \<Rightarrow> Env \<Rightarrow> MetadataResponse option \<Rightarrow> jsval \<Rightarrow> effect list \<times> jsval" where
  "initialData h e md snap =
     (let r = getInitialData (props_tableName (props h)) (props_defaults (props h)) (env_today e) md snap
      in (map LookupLabel (fst r), snd r))"

text \<open>\<^verbatim>\<open>reloadDataTables\<close>: every dependent table is refreshed, in order.\<close>

definition reloadDataTables :: "Hook \<Rightarrow> effect list" where
  "reloadDataTables h = map RefreshDataTable (childDataTables h)"

section \<open>Validation: \<^verbatim>\<open>onValidate\<close>\<close>

text \<open>\<^verbatim>\<open>(state.data as any)[field.name]\<close>, once the buffer is known not to be nullish.\<close>

definition field_value :: "jsval \<Rightarrow> string \<Rightarrow> jsval" where
  "field_value d k = obj_get (entries d) k"

definition text_of :: "jsval \<Rightarrow> string" where
  "text_of v = (case v of JStr s \<Rightarrow> s | _ \<Rightarrow> [])"

text \<open>
  The body of the loop for one field: the messages it pushes, in order, each with
  whether \<^verbatim>\<open>console.warn\<close> prints it. The audit fields are skipped.
\<close>

definition validate_field :: "Hook \<Rightarrow> Env \<Rightarrow> MetadataField \<Rightarrow> (ValidationMessage \<times> bool) list" where
  "validate_field h e f =
     (let fieldValue = field_value (data (state h)) (name f);
          required = (name f \<in> set (requiredFields h))
      in
        if name f \<in> set [''CreatedById'', ''UpdatedById''] then []
        else
          (if ftype f \<in> set [''Single'', ''Int32'', ''Int64'', ''Double'', ''Decimal''] \<and>
              (fieldValue = JStr ''-'' \<or> fieldValue = JStr ''.'')
           then [((name f, CHR 0x22 # text_of fieldValue @ CHR 0x22 # '' is not a valid number''),
                  False)]
           else []) @
          (if (ftype f = ''Lookup'' \<or> ftype f = ''DateTime'') \<and>
              (\<not> isNullable f \<or> isRequired f \<or> required) \<and>
              (fieldValue = Undefined \<or> fieldValue = Null)
           then [((name f, displayName f @ '' is required''), True)]
           else []) @
          (if (isRequired f \<or> required) \<and>
              (fieldValue = Undefined \<or> fieldValue = Null \<or> fieldValue = JStr [])
           then [((name f, displayName f @ '' is required''), True)]
           else []) @
          (if ftype f = ''Guid'' \<and> fieldValue \<noteq> JStr [] \<and> \<not> guidValidate e fieldValue
           then [((name f, displayName f @ '' is not a valid Id''), True)]
           else []))"

text \<open>The messages of a whole pass over \<^verbatim>\<open>state.metadata?.fields ?? []\<close>.\<close>

definition found_messages :: "Hook \<Rightarrow> Env \<Rightarrow> (ValidationMessage \<times> bool) list" where
  "found_messages h e =
     concat (map (validate_field h e)
       (case metadata (state h) of None \<Rightarrow> [] | Some md \<Rightarrow> md_fields md))"

text \<open>
  \<^verbatim>\<open>onValidate\<close>. Reading a field of a nullish buffer throws in the first iteration.
  With messages, they are dispatched and the result is \<^verbatim>\<open>false\<close>; without, the result is
  \<^verbatim>\<open>true\<close> and nothing is dispatched.
\<close>

definition onValidate :: "Hook \<Rightarrow> Env \<Rightarrow> bool run" where
  "onValidate h e =
     (if (case metadata (state h) of None \<Rightarrow> [] | Some md \<Rightarrow> md_fields md) \<noteq> [] \<and>
         nullish (data (state h))
      then ([], Inl TypeError)
      else
        (let messages = map fst (found_messages h e);
             warns = map (\<lambda>m. ConsoleWarn (snd (fst m))) (filter snd (found_messages h e))
         in if length messages > 0
            then (warns @ [Dispatch (SET_VALIDATION_MESSAGES messages)], Inr False)
            else (warns, Inr True)))"

section \<open>Saving: \<^verbatim>\<open>onSave\<close> and \<^verbatim>\<open>onSaveSilent\<close>\<close>

text \<open>The three arguments of \<^verbatim>\<open>onSave\<close>; the post-save event returns nothing.\<close>

record SaveHooks =
  preValidate :: "(jsval \<Rightarrow> SaveEventResponse) option"
  preSaveEvent :: "(jsval \<Rightarrow> SaveEventResponse) option"
  postSaveEvent :: bool

text \<open>\<^verbatim>\<open>const submissionData = { ...(state.data as any) }\<close>.\<close>

definition submissionData :: "Hook \<Rightarrow> obj" where
  "submissionData h = entries (data (state h))"

text \<open>\<^verbatim>\<open>parameters = { ...parameters, ...result.parameters }\<close>.\<close>

definition append_parameters :: "obj \<Rightarrow> SaveEventResponse \<Rightarrow> obj" where
  "append_parameters ps r = assign_all ps (entries (parameters r))"

text \<open>The request of the persistence call, lines 444 to 452.\<close>

definition saveRequest :: "Hook \<Rightarrow> jsval \<Rightarrow> jsval \<Rightarrow> ExecuteRequest" where
  "saveRequest h payload ps =
     \<lparr>url = (if snapshot (state h) = Undefined then API_DATA_CREATE else API_DATA_UPDATE),
      http = (if snapshot (state h) = Undefined then POST else PATCH),
      body_tableName =
        (case metadata (state h) of None \<Rightarrow> Undefined | Some md \<Rightarrow> JStr (tableName md)),
      body_fields = payload,
      body_parameters = ps\<rparr>"

definition operationName :: "Hook \<Rightarrow> jsval" where
  "operationName h = (if snapshot (state h) = Undefined then JStr ''CREATE'' else JStr ''UPDATE'')"

fun postSaveListeners :: "FBEvent list \<Rightarrow> nat \<Rightarrow> jsval list \<Rightarrow> effect list" where
  "postSaveListeners [] i args = []"
| "postSaveListeners (ev # evs) i args =
     (if fst ev = ''POST_SAVE'' then [CallListener i args] else []) @
     postSaveListeners evs (Suc i) args"

text \<open>The three notification channels, called with the same arguments.\<close>

definition notify :: "Hook \<Rightarrow> SaveHooks \<Rightarrow> jsval \<Rightarrow> jsval \<Rightarrow> jsval \<Rightarrow> effect list" where
  "notify h hooks op rid d =
     (if props_onPostSave (props h) then [CallOnPostSave op rid d] else []) @
     postSaveListeners (eventListeners h) 0 [op, rid, d] @
     (if postSaveEvent hooks then [CallPostSaveEvent op rid d] else [])"

text \<open>
  After the call: on success every channel gets the operation, the identifier read from
  the response data and the data; the identifier is read once per call, so nullish
  response data throw at the first channel there is. Otherwise every channel gets
  \<^verbatim>\<open>("FAILED", "", {})\<close>.
\<close>

definition postSave :: "Hook \<Rightarrow> SaveHooks \<Rightarrow> jsval Response option \<Rightarrow> unit run" where
  "postSave h hooks resp =
     (case (case resp of None \<Rightarrow> None | Some r \<Rightarrow> if succeeded r then Some r else None) of
        Some r \<Rightarrow>
          (case get_prop (resp_data r) (props_tableName (props h) @ ''Id'') of
             Inr rid \<Rightarrow> (notify h hooks (operationName h) rid (resp_data r), Inr ())
           | Inl err \<Rightarrow>
               if notify h hooks Undefined Undefined Undefined = [] then ([], Inr ())
               else ([], Inl err))
      | None \<Rightarrow> (notify h hooks (JStr ''FAILED'') (JStr []) (JObj []), Inr ()))"

definition persist :: "Hook \<Rightarrow> Env \<Rightarrow> SaveHooks \<Rightarrow> obj \<Rightarrow> obj \<Rightarrow> unit run" where
  "persist h e hooks sd ps =
     after [Execute (saveRequest h (JObj sd) (JObj ps))]
       (case postSave h hooks (execute e (saveRequest h (JObj sd) (JObj ps))) of
          (es, Inl err) \<Rightarrow> (es, Inl err)
        | (es, Inr u) \<Rightarrow> (es @ [Dispatch SUBMIT_COMPLETE] @ reloadDataTables h, Inr ()))"

text \<open>The call-site \<^verbatim>\<open>preSaveEvent\<close>, lines 427 to 440.\<close>

definition callSitePreSave :: "Hook \<Rightarrow> Env \<Rightarrow> SaveHooks \<Rightarrow> obj \<Rightarrow> obj \<Rightarrow> unit run" where
  "callSitePreSave h e hooks sd ps =
     (case preSaveEvent hooks of
        None \<Rightarrow> persist h e hooks sd ps
      | Some ev \<Rightarrow>
          after [CallPreSaveEvent (JObj sd)]
            (if continue (ev (JObj sd)) = False then ([Dispatch SUBMIT_CANCELLED], Inr ())
             else persist h e hooks sd (append_parameters ps (ev (JObj sd)))))"

text \<open>
  The loop over \<^verbatim>\<open>eventListeners\<close>, lines 415 to 425: the calls it makes and whether a
  listener returned \<^verbatim>\<open>false\<close>. The number is the position of the head of the list.
\<close>

fun preSaveListeners :: "FBEvent list \<Rightarrow> nat \<Rightarrow> jsval \<Rightarrow> jsval \<Rightarrow> effect list \<times> bool" where
  "preSaveListeners [] i sd ps = ([], False)"
| "preSaveListeners (ev # evs) i sd ps =
     (if fst ev = ''PRE_SAVE'' then
        (if snd ev sd ps = JBool False then ([CallListener i [sd, ps]], True)
         else (CallListener i [sd, ps] # fst (preSaveListeners evs (Suc i) sd ps),
               snd (preSaveListeners evs (Suc i) sd ps)))
      else preSaveListeners evs (Suc i) sd ps)"

definition listenersStage :: "Hook \<Rightarrow> Env \<Rightarrow> SaveHooks \<Rightarrow> obj \<Rightarrow> obj \<Rightarrow> unit run" where
  "listenersStage h e hooks sd ps =
     after (fst (preSaveListeners (eventListeners h) 0 (JObj sd) (JObj ps)))
       (if snd (preSaveListeners (eventListeners h) 0 (JObj sd) (JObj ps))
        then ([Dispatch SUBMIT_CANCELLED], Inr ())
        else callSitePreSave h e hooks sd ps)"

text \<open>The instance-level \<^verbatim>\<open>props.onPreSave\<close>, lines 390 to 403.\<close>

definition instancePreSave :: "Hook \<Rightarrow> Env \<Rightarrow> SaveHooks \<Rightarrow> obj \<Rightarrow> obj \<Rightarrow> unit run" where
  "instancePreSave h e hooks sd ps =
     (case props_onPreSave (props h) of
        None \<Rightarrow> listenersStage h e hooks sd ps
      | Some ev \<Rightarrow>
          after [CallOnPreSave (JObj sd)]
            (if continue (ev (JObj sd)) = False then ([Dispatch SUBMIT_CANCELLED], Inr ())
             else listenersStage h e hooks sd (append_parameters ps (ev (JObj sd)))))"

text \<open>Validation and the step to loading, lines 382 to 387.\<close>

definition validateStage :: "Hook \<Rightarrow> Env \<Rightarrow> SaveHooks \<Rightarrow> obj \<Rightarrow> obj \<Rightarrow> unit run" where
  "validateStage h e hooks sd ps =
     after [RunValidate]
       (case onValidate h e of
          (es, Inl err) \<Rightarrow> (es, Inl err)
        | (es, Inr ok) \<Rightarrow>
            if \<not> ok then (es, Inr ())
            else after (es @ [Dispatch SET_IS_LOADING]) (instancePreSave h e hooks sd ps))"

text \<open>\<^verbatim>\<open>onSave(preValidate, preSaveEvent, postSaveEvent)\<close>.\<close>

definition onSave :: "Hook \<Rightarrow> Env \<Rightarrow> SaveHooks \<Rightarrow> unit run" where
  "onSave h e hooks =
     (case preValidate hooks of
        None \<Rightarrow> validateStage h e hooks (submissionData h) []
      | Some pv \<Rightarrow>
          after [CallPreValidate (JObj (submissionData h))]
            (if \<not> continue (pv (JObj (submissionData h))) then ([], Inr ())
             else validateStage h e hooks (submissionData h)
                    (append_parameters [] (pv (JObj (submissionData h))))))"

text \<open>
  \<^verbatim>\<open>onSaveSilent(parameters)\<close>: the call, and \<^verbatim>\<open>resp.data\<close>, which throws when there is no
  response.
\<close>

definition onSaveSilent :: "Hook \<Rightarrow> Env \<Rightarrow> jsval \<Rightarrow> jsval run" where
  "onSaveSilent h e ps =
     ([Execute (saveRequest h (data (state h)) ps)],
      (case execute e (saveRequest h (data (state h)) ps) of
         None \<Rightarrow> Inl TypeError
       | Some r \<Rightarrow> Inr (resp_data r)))"

section \<open>Snapshot assignment: \<^verbatim>\<open>setSnapshot\<close>\<close>

text \<open>
  With metadata in \<^verbatim>\<open>state\<close> the buffer is synthesized and \<^verbatim>\<open>SET_DATA_TO_EDIT\<close> is
  dispatched; without, the snapshot is appended to the queue and nothing is dispatched.
\<close>

definition setSnapshot :: "Hook \<Rightarrow> Env \<Rightarrow> jsval \<Rightarrow> bool option \<Rightarrow> effect list" where
  "setSnapshot h e snap forceShowLoading =
     (case metadata (state h) of
        Some md \<Rightarrow>
          fst (initialData h e (Some md) snap) @
          [Dispatch (SET_DATA_TO_EDIT
             \<lparr>de_data = snd (initialData h e (Some md) snap),
              de_snapshot = snap,
              de_canUpdate = props_canUpdate (props h),
              de_forceIsLoading = (case forceShowLoading of None \<Rightarrow> False | Some b \<Rightarrow> b)\<rparr>)]
      | None \<Rightarrow> [SetSnapshotQueue (Append snap)])"

text \<open>
  \<^verbatim>\<open>if (snapshotQueue.length > 0) { setSnapshot(snapshotQueue.pop()); setSnapshotQueue([]); }\<close>,
  as it stands at the end of \<^verbatim>\<open>onLoad\<close> and in the effect below. \<^verbatim>\<open>setSnapshot\<close> is the
  function of the same render, so it reads the same \<^verbatim>\<open>state\<close>.
\<close>

definition drainQueue :: "Hook \<Rightarrow> Env \<Rightarrow> effect list" where
  "drainQueue h e =
     (if length (snapshotQueue h) > 0
      then SetSnapshotQueue Pop # setSnapshot h e (last (snapshotQueue h)) None @
           [SetSnapshotQueue (Replace [])]
      else [])"

text \<open>
  The effect of lines 641 to 646, run after a render in which \<^verbatim>\<open>state.type\<close> or the
  queue changed.
\<close>

definition snapshotQueueEffect :: "Hook \<Rightarrow> Env \<Rightarrow> effect list" where
  "snapshotQueueEffect h e =
     (if length (snapshotQueue h) > 0 \<and> stype (state h) = ''INITIAL_LOAD_COMPLETE''
      then SetSnapshotQueue Pop # setSnapshot h e (last (snapshotQueue h)) None @
           [SetSnapshotQueue (Replace [])]
      else [])"

section \<open>Loading: \<^verbatim>\<open>onLoad\<close>\<close>

record OnLoadOptions =
  opt_id :: jsval
  refresh :: bool
  refreshDatatables :: bool
  opt_forceShowLoading :: "bool option"

text \<open>\<^verbatim>\<open>x["_ui_info_"].canUpdate\<close>.\<close>

definition ui_canUpdate :: "jsval \<Rightarrow> error + jsval" where
  "ui_canUpdate x =
     (case get_prop x ''_ui_info_'' of Inl err \<Rightarrow> Inl err | Inr u \<Rightarrow> get_prop u ''canUpdate'')"

definition missing_message :: "string \<Rightarrow> string" where
  "missing_message tname =
     ''This record doesn'' @ [CHR 0x27] @
     ''t exist or you are missing the required permissions to access '' @ tname"

text \<open>
  Lines 82 to 95: unless this is a refresh, \<^verbatim>\<open>START_INITIAL_LOAD\<close> is dispatched, with a
  buffer synthesized from the metadata already in \<^verbatim>\<open>state\<close>, if any.
\<close>

definition provisionalData :: "Hook \<Rightarrow> Env \<Rightarrow> effect list \<times> jsval" where
  "provisionalData h e =
     (case metadata (state h) of
        None \<Rightarrow> ([], Undefined)
      | Some md \<Rightarrow> initialData h e (Some md) Undefined)"

definition startAction :: "Hook \<Rightarrow> Env \<Rightarrow> OnLoadOptions \<Rightarrow> action" where
  "startAction h e opts =
     START_INITIAL_LOAD
       \<lparr>sl_tableName = props_tableName (props h),
        sl_data = snd (provisionalData h e),
        sl_forceIsLoading =
          (case opt_forceShowLoading opts of
             Some b \<Rightarrow> b
           | None \<Rightarrow> (case props_forceShowLoading (props h) of Some b \<Rightarrow> b | None \<Rightarrow> False))\<rparr>"

definition startLoad :: "Hook \<Rightarrow> Env \<Rightarrow> OnLoadOptions \<Rightarrow> effect list" where
  "startLoad h e opts =
     (if \<not> refresh opts then fst (provisionalData h e) @ [Dispatch (startAction h e opts)]
      else [])"

text \<open>
  Lines 127 to 175, given the metadata, the snapshot, whether the record is missing and
  the update flag found so far.
\<close>

definition finishLoad ::
  "Hook \<Rightarrow> Env \<Rightarrow> OnLoadOptions \<Rightarrow> MetadataResponse option \<Rightarrow> jsval \<Rightarrow> bool \<Rightarrow> jsval \<Rightarrow> unit run" where
  "finishLoad h e opts md snap missingRecord canUpd =
     (case (if \<not> nullish (props_snapshot (props h)) then ui_canUpdate (props_snapshot (props h))
            else Inr canUpd) of
        Inl err \<Rightarrow> ([], Inl err)
      | Inr canUpd1 \<Rightarrow>
          (fst (initialData h e md snap) @
           [GetTablePermissions (props_tableName (props h))] @
           (if refreshDatatables opts then reloadDataTables h else []) @
           [Dispatch (INITIAL_LOAD_COMPLETE
              \<lparr>lc_metadata = md,
               lc_snapshot = snap,
               lc_data = snd (initialData h e md snap),
               lc_canUpdate =
                 (if props_canUpdate (props h) = Some False then JBool False else canUpd1),
               lc_canCreate =
                 (if props_canCreate (props h) = Some False then False
                  else createPermission e (props_tableName (props h)) \<noteq> ''NONE''),
               lc_canRead =
                 (if missingRecord then (False, missing_message (props_tableName (props h)))
                  else (True, []))\<rparr>)] @
           drainQueue h e,
           Inr ()))"

definition readRequest :: "Hook \<Rightarrow> jsval \<Rightarrow> ReadRequest" where
  "readRequest h rid =
     \<lparr>rr_tableName = props_tableName (props h), rr_fields = [''*''], rr_maxResults = 1,
      rr_page = 1, rr_id = rid\<rparr>"

text \<open>
  Lines 102 to 125. A refresh reads the identifier off \<^verbatim>\<open>state.snapshot\<close>, which throws
  when that is nullish. No response, or one that did not succeed, ends the load there.
\<close>

definition readStage ::
  "Hook \<Rightarrow> Env \<Rightarrow> OnLoadOptions \<Rightarrow> MetadataResponse option \<Rightarrow> unit run" where
  "readStage h e opts md =
     (if (nullish (props_snapshot (props h)) \<and> \<not> nullish (opt_id opts)) \<or> refresh opts then
        (case (if refresh opts
               then get_prop (snapshot (state h)) (props_tableName (props h) @ ''Id'')
               else Inr (opt_id opts)) of
           Inl err \<Rightarrow> ([], Inl err)
         | Inr rid \<Rightarrow>
             after [ReadRecords (readRequest h rid)]
               (case readRecords e (readRequest h rid) of
                  None \<Rightarrow> ([], Inr ())
                | Some resp \<Rightarrow>
                    if \<not> succeeded resp then ([], Inr ())
                    else
                      (case resp_data resp of
                         None \<Rightarrow>
                           finishLoad h e opts md (props_snapshot (props h)) True (JBool False)
                       | Some [] \<Rightarrow>
                           finishLoad h e opts md (props_snapshot (props h)) True (JBool False)
                       | Some (row # rest) \<Rightarrow>
                           (case ui_canUpdate row of
                              Inl err \<Rightarrow> ([], Inl err)
                            | Inr cu \<Rightarrow> finishLoad h e opts md row False cu))))
      else finishLoad h e opts md (props_snapshot (props h)) False (JBool False))"

text \<open>\<^verbatim>\<open>onLoad(options)\<close>. The table name is a string, so the guard is the empty name.\<close>

definition onLoad :: "Hook \<Rightarrow> Env \<Rightarrow> OnLoadOptions \<Rightarrow> unit run" where
  "onLoad h e opts =
     (if props_tableName (props h) = [] then ([], Inr ())
      else
        after (startLoad h e opts)
          (case props_metadata (props h) of
             Some md \<Rightarrow> readStage h e opts (Some md)
           | None \<Rightarrow>
               after [FetchMetadata (props_tableName (props h))]
                 (readStage h e opts (fetchMetadata e (props_tableName (props h))))))"

section \<open>From one render to the next\<close>

text \<open>
  The effects of a function reach the container afterwards: each dispatched action goes
  through the reducer, each queue update through the queue. The reducer is a parameter
  here: \<^verbatim>\<open>formbuilderReducer\<close> lives in \<^verbatim>\<open>../reducers/formbuilderReducer\<close>.
\<close>

fun apply_queue :: "queue_update \<Rightarrow> jsval list \<Rightarrow> jsval list" where
  "apply_queue (Append s) q = q @ [s]"
| "apply_queue (Replace xs) q = xs"
| "apply_queue Pop q = butlast q"

definition commit_effect :: "(FormState \<Rightarrow> action \<Rightarrow> FormState) \<Rightarrow> effect \<Rightarrow> Hook \<Rightarrow> Hook" where
  "commit_effect R eff h =
     (case eff of
        Dispatch a \<Rightarrow> h\<lparr>state := R (state h) a\<rparr>
      | SetSnapshotQueue u \<Rightarrow> h\<lparr>snapshotQueue := apply_queue u (snapshotQueue h)\<rparr>
      | _ \<Rightarrow> h)"

definition commit :: "(FormState \<Rightarrow> action \<Rightarrow> FormState) \<Rightarrow> Hook \<Rightarrow> effect list \<Rightarrow> Hook" where
  "commit R h es = fold (commit_effect R) es h"

text \<open>The actions among the effects, in order.\<close>

definition dispatched :: "effect list \<Rightarrow> action list" where
  "dispatched es = concat (map (\<lambda>x. case x of Dispatch a \<Rightarrow> [a] | _ \<Rightarrow> []) es)"

text \<open>The operation the hook reports, lines 672 to 674.\<close>

datatype operation_kind = CREATE | UPDATE

definition operation :: "Hook \<Rightarrow> operation_kind" where
  "operation h =
     (if \<not> nullish (props_snapshot (props h)) \<or> \<not> nullish (snapshot (state h))
      then UPDATE else CREATE)"

section \<open>The reducer\<close>

text \<open>
  Modelled from the spec: \<^verbatim>\<open>formbuilderReducer\<close>, whose file
  \<^verbatim>\<open>../reducers/formbuilderReducer\<close> is not among the sources. Section 4 of the
  specification says what each transition publishes: the start of a load sets the
  provisional buffer and the loading flag; its completion publishes metadata, snapshot,
  data and the three permissions; a snapshot assignment replaces buffer and snapshot,
  overrides \<^verbatim>\<open>canUpdate\<close> when the caller fixed it, and resets the dirty set and the
  messages; a failed validation publishes its messages; a submit starts, is cancelled or
  completes. That \<^verbatim>\<open>state.type\<close> holds the name of the last action is read off line 642 of
  the hook. The theorems below hold for every reducer; this one stands in the examples.
\<close>

definition formbuilderReducer :: "FormState \<Rightarrow> action \<Rightarrow> FormState" where
  "formbuilderReducer s a =
     (case a of
        START_INITIAL_LOAD p \<Rightarrow>
          s\<lparr>stype := ''START_INITIAL_LOAD'', data := sl_data p, isLoading := True,
            forceIsLoading := sl_forceIsLoading p\<rparr>
      | INITIAL_LOAD_COMPLETE p \<Rightarrow>
          s\<lparr>stype := ''INITIAL_LOAD_COMPLETE'', metadata := lc_metadata p,
            snapshot := lc_snapshot p, data := lc_data p, canUpdate := lc_canUpdate p,
            canCreate := lc_canCreate p, canRead := lc_canRead p, isLoading := False\<rparr>
      | SET_DATA_TO_EDIT p \<Rightarrow>
          s\<lparr>stype := ''SET_DATA_TO_EDIT'', data := de_data p, snapshot := de_snapshot p,
            canUpdate := (case de_canUpdate p of None \<Rightarrow> canUpdate s | Some b \<Rightarrow> JBool b),
            forceIsLoading := de_forceIsLoading p, dirtyFields := [],
            validationMessages := [], isLoading := False\<rparr>
      | SET_IS_LOADING \<Rightarrow> s\<lparr>stype := ''SET_IS_LOADING'', isLoading := True\<rparr>
      | SUBMIT_CANCELLED \<Rightarrow> s\<lparr>stype := ''SUBMIT_CANCELLED'', isLoading := False\<rparr>
      | SUBMIT_COMPLETE \<Rightarrow>
          s\<lparr>stype := ''SUBMIT_COMPLETE'', isLoading := False, isSubmitted := True\<rparr>
      | SET_VALIDATION_MESSAGES ms \<Rightarrow>
          s\<lparr>stype := ''SET_VALIDATION_MESSAGES'', validationMessages := ms\<rparr>)"

section \<open>What the specification says of the synthesizer\<close>

text \<open>The type names for which \<^verbatim>\<open>getClearedValues\<close> has a default.\<close>

definition known_type :: "string \<Rightarrow> bool" where
  "known_type t =
     (is_numeric t \<or> t = ''String'' \<or> t = ''Guid'' \<or> t = ''Boolean'' \<or> t = ''DateTime'' \<or>
      t = ''Lookup'')"

text \<open>
  The default of a field by its type, in the words of the specification: \<^verbatim>\<open>0\<close> for a
  numeric field and the empty string for a nullable one, the empty string for a string or
  identifier, \<^verbatim>\<open>false\<close> for a boolean, the start of the day for a date and \<^verbatim>\<open>null\<close> for a
  nullable one, \<^verbatim>\<open>null\<close> for a lookup without a caller default.
\<close>

definition spec_default :: "string \<Rightarrow> MetadataField \<Rightarrow> jsval" where
  "spec_default today f =
     (if is_numeric (ftype f) then (if isNullable f then JStr [] else JNum 0)
      else if ftype f = ''String'' \<or> ftype f = ''Guid'' then JStr []
      else if ftype f = ''Boolean'' then JBool False
      else if ftype f = ''DateTime'' then (if isNullable f then Null else JStr today)
      else Null)"

text \<open>The fields of the cleared values, before the reserved key is added.\<close>

definition inner_cleared :: "FieldValue list option \<Rightarrow> string \<Rightarrow> MetadataResponse \<Rightarrow> obj" where
  "inner_cleared defaults today md =
       (assign_all
         (assign_all
           (assign_all
             (assign_all
               (assign_all [] (reduce_fields (numericDefaults md)))
               (reduce_fields (stringDefaults md)))
             (reduce_fields (booleanDefaults md)))
           (reduce_fields (dateDefaults today md)))
         (reduce_fields (nullableLookupDefaults defaults md)))"

text \<open>
  The snapshot keys that the update path overlays, in the words of the specification: the
  value is not \<^verbatim>\<open>null\<close>, and the key is a field of the schema, the reserved key or the
  identifier of the record.
\<close>

definition overlays :: "string \<Rightarrow> MetadataResponse \<Rightarrow> obj \<Rightarrow> string \<Rightarrow> bool" where
  "overlays tname md snap k =
     (k \<in> fst ` set snap \<and> obj_get snap k \<noteq> Null \<and>
      (k \<in> name ` set (md_fields md) \<or> k = ''_ui_info_'' \<or> k = tname @ ''Id''))"

section \<open>Reading a run\<close>

text \<open>The requests among the effects, in order.\<close>

definition executed :: "effect list \<Rightarrow> ExecuteRequest list" where
  "executed es = concat (map (\<lambda>x. case x of Execute r \<Rightarrow> [r] | _ \<Rightarrow> []) es)"

text \<open>The queue updates among the effects, in order.\<close>

definition queue_updates :: "effect list \<Rightarrow> queue_update list" where
  "queue_updates es = concat (map (\<lambda>x. case x of SetSnapshotQueue u \<Rightarrow> [u] | _ \<Rightarrow> []) es)"

section \<open>The stages of a save\<close>

text \<open>
  What lets \<^verbatim>\<open>onSave\<close> reach the loop over the listeners: \<^verbatim>\<open>preValidate\<close>, if given,
  continues; validation passes; \<^verbatim>\<open>props.onPreSave\<close>, if given, continues.
\<close>

definition pre_listener_gates :: "Hook \<Rightarrow> Env \<Rightarrow> SaveHooks \<Rightarrow> bool" where
  "pre_listener_gates h e hooks =
     ((case preValidate hooks of None \<Rightarrow> True | Some pv \<Rightarrow> continue (pv (JObj (submissionData h)))) \<and>
      snd (onValidate h e) = Inr True \<and>
      (case props_onPreSave (props h) of
         None \<Rightarrow> True
       | Some ev \<Rightarrow> continue (ev (JObj (submissionData h)))))"

text \<open>The parameter bag when the loop starts: what those two hooks returned, in turn.\<close>

definition pre_listener_parameters :: "Hook \<Rightarrow> SaveHooks \<Rightarrow> obj" where
  "pre_listener_parameters h hooks =
     (case props_onPreSave (props h) of
        None \<Rightarrow> (case preValidate hooks of
                   None \<Rightarrow> []
                 | Some pv \<Rightarrow> append_parameters [] (pv (JObj (submissionData h))))
      | Some ev \<Rightarrow>
          append_parameters
            (case preValidate hooks of
               None \<Rightarrow> []
             | Some pv \<Rightarrow> append_parameters [] (pv (JObj (submissionData h))))
            (ev (JObj (submissionData h))))"

text \<open>What \<^verbatim>\<open>onSave\<close> has done when the loop starts.\<close>

definition save_prefix :: "Hook \<Rightarrow> Env \<Rightarrow> SaveHooks \<Rightarrow> effect list" where
  "save_prefix h e hooks =
     (case preValidate hooks of None \<Rightarrow> [] | Some pv \<Rightarrow> [CallPreValidate (JObj (submissionData h))]) @
     [RunValidate] @ fst (onValidate h e) @ [Dispatch SET_IS_LOADING] @
     (case props_onPreSave (props h) of
        None \<Rightarrow> []
      | Some ev \<Rightarrow> [CallOnPreSave (JObj (submissionData h))])"

text \<open>
  What lets \<^verbatim>\<open>onSave\<close> reach the persistence step: the above, no \<^verbatim>\<open>PRE_SAVE\<close> listener
  returns \<^verbatim>\<open>false\<close>, and the \<^verbatim>\<open>preSaveEvent\<close> argument, if given, continues.
\<close>

definition save_gates :: "Hook \<Rightarrow> Env \<Rightarrow> SaveHooks \<Rightarrow> bool" where
  "save_gates h e hooks =
     (pre_listener_gates h e hooks \<and>
      \<not> snd (preSaveListeners (eventListeners h) 0 (JObj (submissionData h))
               (JObj (pre_listener_parameters h hooks))) \<and>
      (case preSaveEvent hooks of
         None \<Rightarrow> True
       | Some ev \<Rightarrow> continue (ev (JObj (submissionData h)))))"

text \<open>The parameter bag at the persistence step: the parameters of the three hooks, in turn.\<close>

definition accumulated_parameters :: "Hook \<Rightarrow> SaveHooks \<Rightarrow> obj" where
  "accumulated_parameters h hooks =
     (case preSaveEvent hooks of
        None \<Rightarrow> pre_listener_parameters h hooks
      | Some ev \<Rightarrow> append_parameters (pre_listener_parameters h hooks) (ev (JObj (submissionData h))))"

section \<open>The stages of a load\<close>

text \<open>The identifier a load asks for, once reading it off \<^verbatim>\<open>state.snapshot\<close> cannot throw.\<close>

definition load_read_id :: "Hook \<Rightarrow> OnLoadOptions \<Rightarrow> jsval" where
  "load_read_id h opts =
     (if refresh opts
      then obj_get (entries (snapshot (state h))) (props_tableName (props h) @ ''Id'')
      else opt_id opts)"

text \<open>
  A load makes its read: a table is configured; there is no caller snapshot and an
  identifier is given, or this is a refresh; and a refresh finds a snapshot in \<^verbatim>\<open>state\<close>
  to read the identifier from.
\<close>

definition fetch_made :: "Hook \<Rightarrow> OnLoadOptions \<Rightarrow> bool" where
  "fetch_made h opts =
     (props_tableName (props h) \<noteq> [] \<and>
      ((nullish (props_snapshot (props h)) \<and> \<not> nullish (opt_id opts)) \<or> refresh opts) \<and>
      (refresh opts \<longrightarrow> \<not> nullish (snapshot (state h))))"

text \<open>The read fails at transport level: no response, or \<^verbatim>\<open>succeeded: false\<close>.\<close>

definition fetch_failed :: "Env \<Rightarrow> ReadRequest \<Rightarrow> bool" where
  "fetch_failed e req = (case readRecords e req of None \<Rightarrow> True | Some r \<Rightarrow> \<not> succeeded r)"

text \<open>The read succeeds with no rows: \<^verbatim>\<open>results\<close> is \<^verbatim>\<open>null\<close> or empty.\<close>

definition fetch_empty :: "Env \<Rightarrow> ReadRequest \<Rightarrow> bool" where
  "fetch_empty e req =
     (case readRecords e req of
        None \<Rightarrow> False
      | Some r \<Rightarrow> succeeded r \<and> (case resp_data r of None \<Rightarrow> True | Some rows \<Rightarrow> rows = []))"

text \<open>What a load has done when the response of its read arrives.\<close>

definition before_read :: "Hook \<Rightarrow> Env \<Rightarrow> OnLoadOptions \<Rightarrow> effect list" where
  "before_read h e opts =
     startLoad h e opts @
     (case props_metadata (props h) of
        None \<Rightarrow> [FetchMetadata (props_tableName (props h))]
      | Some md \<Rightarrow> []) @
     [ReadRecords (readRequest h (load_read_id h opts))]"

text \<open>The metadata of a load: the caller's, or else what the metadata call yields.\<close>

definition load_metadata :: "Hook \<Rightarrow> Env \<Rightarrow> MetadataResponse option" where
  "load_metadata h e =
     (case props_metadata (props h) of
        None \<Rightarrow> fetchMetadata e (props_tableName (props h))
      | Some md \<Rightarrow> Some md)"

text \<open>What a load does between its read and \<^verbatim>\<open>INITIAL_LOAD_COMPLETE\<close>.\<close>

definition after_read :: "Hook \<Rightarrow> Env \<Rightarrow> OnLoadOptions \<Rightarrow> effect list" where
  "after_read h e opts =
     fst (initialData h e (load_metadata h e) (props_snapshot (props h))) @
     [GetTablePermissions (props_tableName (props h))] @
     (if refreshDatatables opts then reloadDataTables h else [])"

text \<open>
  The payload of \<^verbatim>\<open>INITIAL_LOAD_COMPLETE\<close> when the record is missing, given the update flag
  found so far.
\<close>

definition missing_payload :: "Hook \<Rightarrow> Env \<Rightarrow> jsval \<Rightarrow> LoadComplete" where
  "missing_payload h e cu =
     \<lparr>lc_metadata = load_metadata h e,
      lc_snapshot = props_snapshot (props h),
      lc_data = snd (initialData h e (load_metadata h e) (props_snapshot (props h))),
      lc_canUpdate = (if props_canUpdate (props h) = Some False then JBool False else cu),
      lc_canCreate =
        (if props_canCreate (props h) = Some False then False
         else createPermission e (props_tableName (props h)) \<noteq> ''NONE''),
      lc_canRead = (False, missing_message (props_tableName (props h)))\<rparr>"

text \<open>
  What a load has done when it has dispatched \<^verbatim>\<open>INITIAL_LOAD_COMPLETE\<close> for a missing
  record of a form without caller snapshot; the queue is drained after that.
\<close>

definition missing_completion :: "Hook \<Rightarrow> Env \<Rightarrow> OnLoadOptions \<Rightarrow> effect list" where
  "missing_completion h e opts =
     before_read h e opts @ after_read h e opts @
     [Dispatch (INITIAL_LOAD_COMPLETE (missing_payload h e (JBool False)))]"

section \<open>Example data\<close>

text \<open>A table with a required name and a status, as in the scenarios of section 8.\<close>

definition widget_md :: MetadataResponse where
  "widget_md = \<lparr>tableName = ''Widget'', md_fields =
     [\<lparr>name = ''Name'', ftype = ''String'', isNullable = False, isRequired = True,
       displayName = ''Name'', lookupTable = [], lookupTableNameField = []\<rparr>,
      \<lparr>name = ''Status'', ftype = ''String'', isNullable = True, isRequired = False,
       displayName = ''Status'', lookupTable = [], lookupTableNameField = []\<rparr>]\<rparr>"

text \<open>A table with one field of each kind that the synthesizer knows.\<close>

definition order_md :: MetadataResponse where
  "order_md = \<lparr>tableName = ''Order'', md_fields =
     [\<lparr>name = ''Quantity'', ftype = ''Int32'', isNullable = False, isRequired = False,
       displayName = ''Quantity'', lookupTable = [], lookupTableNameField = []\<rparr>,
      \<lparr>name = ''Discount'', ftype = ''Decimal'', isNullable = True, isRequired = False,
       displayName = ''Discount'', lookupTable = [], lookupTableNameField = []\<rparr>,
      \<lparr>name = ''Note'', ftype = ''String'', isNullable = True, isRequired = False,
       displayName = ''Note'', lookupTable = [], lookupTableNameField = []\<rparr>,
      \<lparr>name = ''Paid'', ftype = ''Boolean'', isNullable = False, isRequired = False,
       displayName = ''Paid'', lookupTable = [], lookupTableNameField = []\<rparr>,
      \<lparr>name = ''Due'', ftype = ''DateTime'', isNullable = False, isRequired = False,
       displayName = ''Due'', lookupTable = [], lookupTableNameField = []\<rparr>,
      \<lparr>name = ''CustomerId'', ftype = ''Lookup'', isNullable = True, isRequired = False,
       displayName = ''Customer'', lookupTable = ''Customer'', lookupTableNameField = ''Name''\<rparr>]\<rparr>"

text \<open>A table whose only field has a type name outside that list.\<close>

definition person_md :: MetadataResponse where
  "person_md = \<lparr>tableName = ''Person'', md_fields =
     [\<lparr>name = ''Age'', ftype = ''Int16'', isNullable = False, isRequired = False,
       displayName = ''Age'', lookupTable = [], lookupTableNameField = []\<rparr>]\<rparr>"

text \<open>A table with two fields that the synthesizer knows and one that it does not.\<close>

definition mixed_md :: MetadataResponse where
  "mixed_md = \<lparr>tableName = ''Person'', md_fields =
     [\<lparr>name = ''Visits'', ftype = ''Int32'', isNullable = False, isRequired = False,
       displayName = ''Visits'', lookupTable = [], lookupTableNameField = []\<rparr>,
      \<lparr>name = ''Age'', ftype = ''Int16'', isNullable = False, isRequired = False,
       displayName = ''Age'', lookupTable = [], lookupTableNameField = []\<rparr>,
      \<lparr>name = ''Nick'', ftype = ''String'', isNullable = True, isRequired = False,
       displayName = ''Nick'', lookupTable = [], lookupTableNameField = []\<rparr>]\<rparr>"

definition midnight :: string where
  "midnight = ''2024-01-01T00:00:00.000Z''"

text \<open>
  A render of a form on that table: the name has been typed in, and a message from an
  earlier validation is still in the state.
\<close>

definition widget_props :: Props where
  "widget_props =
     \<lparr>props_tableName = ''Widget'', props_id = Undefined, props_metadata = None,
      props_defaults = None, props_snapshot = Undefined, props_canUpdate = None,
      props_canCreate = None, props_onPreSave = None, props_onPostSave = False,
      props_forceShowLoading = None\<rparr>"

definition widget_state :: FormState where
  "widget_state =
     \<lparr>metadata = Some widget_md, snapshot = Undefined,
      data = JObj [(''Name'', JStr ''Widget''), (''Status'', JStr []),
                   (''_ui_info_'', ui_info_default)],
      dirtyFields = [''Name''], validationMessages = [(''Name'', ''Name is required'')],
      stype = ''SET_FIELD_VALUE'', canUpdate = JBool False, canCreate = True,
      canRead = (True, []), isLoading = False, forceIsLoading = False,
      isSubmitted = False\<rparr>"

definition widget_hook :: Hook where
  "widget_hook =
     \<lparr>props = widget_props, state = widget_state, snapshotQueue = [],
      childDataTables = [], eventListeners = [], requiredFields = []\<rparr>"

definition widget_env :: Env where
  "widget_env =
     \<lparr>env_today = midnight,
      fetchMetadata = (\<lambda>t. Some widget_md),
      readRecords = (\<lambda>r. None),
      execute = (\<lambda>r. Some \<lparr>succeeded = True,
                           resp_data = JObj [(''WidgetId'', JStr ''1''), (''Name'', JStr ''Widget'')]\<rparr>),
      createPermission = (\<lambda>t. ''ALL''),
      guidValidate = (\<lambda>v. True)\<rparr>"

text \<open>The same form with the name left empty and no message yet.\<close>

definition blank_hook :: Hook where
  "blank_hook =
     widget_hook\<lparr>state := widget_state\<lparr>data := JObj [(''Name'', JStr []), (''Status'', JStr [])],
                                          validationMessages := []\<rparr>\<rparr>"

text \<open>A call of \<^verbatim>\<open>save\<close> whose \<^verbatim>\<open>preValidate\<close> says not to continue.\<close>

definition stop_hooks :: SaveHooks where
  "stop_hooks =
     \<lparr>preValidate = Some (\<lambda>d. \<lparr>continue = False, parameters = Undefined\<rparr>),
      preSaveEvent = None, postSaveEvent = True\<rparr>"

text \<open>A call of \<^verbatim>\<open>save\<close> without arguments.\<close>

definition plain_hooks :: SaveHooks where
  "plain_hooks = \<lparr>preValidate = None, preSaveEvent = None, postSaveEvent = False\<rparr>"

text \<open>
  The form with four listeners: the third is the first \<^verbatim>\<open>PRE_SAVE\<close> listener to return
  \<^verbatim>\<open>false\<close>.
\<close>

definition guarded_hook :: Hook where
  "guarded_hook =
     widget_hook\<lparr>eventListeners :=
       [(''POST_SAVE'', \<lambda>d p. Undefined),
        (''PRE_SAVE'', \<lambda>d p. Undefined),
        (''PRE_SAVE'', \<lambda>d p. JBool False),
        (''PRE_SAVE'', \<lambda>d p. JBool True)]\<rparr>"

text \<open>
  The form with three listeners, none of which returns \<^verbatim>\<open>false\<close>: two for \<^verbatim>\<open>PRE_SAVE\<close>
  around one for \<^verbatim>\<open>POST_SAVE\<close>.
\<close>

definition polite_hook :: Hook where
  "polite_hook =
     widget_hook\<lparr>eventListeners :=
       [(''PRE_SAVE'', \<lambda>d p. Undefined),
        (''POST_SAVE'', \<lambda>d p. Undefined),
        (''PRE_SAVE'', \<lambda>d p. JBool True)]\<rparr>"

text \<open>The form editing a stored record, with one listener that returns nothing.\<close>

definition edit_hook :: Hook where
  "edit_hook =
     widget_hook\<lparr>state := widget_state\<lparr>snapshot :=
        JObj [(''WidgetId'', JStr ''1''), (''Name'', JStr ''Old''), (''_ui_info_'', ui_info_default)]\<rparr>,
       eventListeners := [(''PRE_SAVE'', \<lambda>d p. Undefined)]\<rparr>"

text \<open>A call of \<^verbatim>\<open>save\<close> whose hooks continue and hand over parameters.\<close>

definition asking_hooks :: SaveHooks where
  "asking_hooks =
     \<lparr>preValidate = Some (\<lambda>d. \<lparr>continue = True, parameters = JObj [(''reason'', JStr ''edit'')]\<rparr>),
      preSaveEvent = Some (\<lambda>d. \<lparr>continue = True, parameters = JObj [(''force'', JBool True)]\<rparr>),
      postSaveEvent = True\<rparr>"

text \<open>A form just mounted: nothing loaded yet, one dependent table.\<close>

definition fresh_state :: FormState where
  "fresh_state =
     \<lparr>metadata = None, snapshot = Undefined, data = Undefined, dirtyFields = [],
      validationMessages = [], stype = [], canUpdate = JBool False, canCreate = False,
      canRead = (True, []), isLoading = False, forceIsLoading = False, isSubmitted = False\<rparr>"

definition fresh_hook :: Hook where
  "fresh_hook =
     \<lparr>props = widget_props, state = fresh_state, snapshotQueue = [],
      childDataTables = [''history''], eventListeners = [], requiredFields = []\<rparr>"

text \<open>The options of \<^verbatim>\<open>load("1")\<close> and of the load on mount.\<close>

definition load_opts :: OnLoadOptions where
  "load_opts =
     \<lparr>opt_id = JStr ''1'', refresh = False, refreshDatatables = True,
      opt_forceShowLoading = None\<rparr>"

definition mount_opts :: OnLoadOptions where
  "mount_opts =
     \<lparr>opt_id = Undefined, refresh = False, refreshDatatables = False,
      opt_forceShowLoading = None\<rparr>"

text \<open>Surroundings in which every read succeeds with no rows.\<close>

definition gone_env :: Env where
  "gone_env = widget_env\<lparr>readRecords := (\<lambda>r. Some \<lparr>succeeded = True, resp_data = Some []\<rparr>)\<rparr>"

text \<open>
  A snapshot assigned before any schema is known, and the render that follows: the queue
  holds it.
\<close>

definition queued_widget :: jsval where
  "queued_widget =
     JObj [(''WidgetId'', JStr ''7''), (''Name'', JStr ''Queued''),
           (''_ui_info_'', ui_info_default)]"

definition waiting_hook :: Hook where
  "waiting_hook = fresh_hook\<lparr>snapshotQueue := [queued_widget]\<rparr>"

section \<open>Objects and the create path\<close>

lemma map_of_rev_distinct: "distinct (map fst xs) \<Longrightarrow> map_of (rev xs) = map_of xs"
proof (induction xs)
  case Nil
  then show ?case by simp
next
  case (Cons x xs)
  then have notin: "fst x \<notin> fst ` set xs" and d: "distinct (map fst xs)" by auto
  have "map_of (rev (x # xs)) = map_of [x] ++ map_of (rev xs)"
    by (simp add: map_of_append)
  also have "\<dots> = map_of [x] ++ map_of xs" using Cons.IH d by simp
  also have "\<dots> = map_of (x # xs)"
  proof -
    have "map_of xs (fst x) = None" using notin by (simp add: map_of_eq_None_iff)
    then show ?thesis
      by (cases x) (auto simp: fun_eq_iff map_add_def split: option.splits)
  qed
  finally show ?case .
qed

lemma map_of_assign_all: "map_of (assign_all a b) = map_of a ++ map_of (rev b)"
  unfolding assign_all_def
proof (induction b arbitrary: a)
  case Nil
  then show ?case by simp
next
  case (Cons x b)
  show ?case
    by (simp add: Cons.IH AList.update_conv' map_of_append fun_eq_iff map_add_def split: option.splits)
qed

lemma keys_assign_all: "fst ` set (assign_all a b) = fst ` set a \<union> fst ` set b"
  unfolding assign_all_def
  by (induction b arbitrary: a) (auto simp: AList.dom_update)

lemma distinct_assign_all: "distinct (map fst a) \<Longrightarrow> distinct (map fst (assign_all a b))"
  unfolding assign_all_def
  by (induction b arbitrary: a) (auto simp: AList.distinct_update)

lemma distinct_reduce_fields: "distinct (map fst (reduce_fields xs))"
  unfolding reduce_fields_def by (rule distinct_assign_all) simp

lemma map_of_reduce_fields: "map_of (reduce_fields xs) = map_of (rev xs)"
  unfolding reduce_fields_def by (simp add: map_of_assign_all)

lemma keys_reduce_fields: "fst ` set (reduce_fields xs) = fst ` set xs"
  unfolding reduce_fields_def by (simp add: keys_assign_all)

lemma map_of_assign_reduce:
  "map_of (assign_all a (reduce_fields xs)) = map_of a ++ map_of (rev xs)"
  by (simp add: map_of_assign_all map_of_rev_distinct distinct_reduce_fields map_of_reduce_fields)

lemma lookupDefault_none: "defaults = None \<or> defaults = Some [] \<Longrightarrow> lookupDefault defaults n = Null"
  by (auto simp: lookupDefault_def)

lemma map_of_inner_cleared:
  "map_of (inner_cleared defaults today md) =
     map_of (rev (numericDefaults md)) ++ map_of (rev (stringDefaults md)) ++
     map_of (rev (booleanDefaults md)) ++ map_of (rev (dateDefaults today md)) ++
     map_of (rev (nullableLookupDefaults defaults md))"
  unfolding inner_cleared_def by (simp only: map_of_assign_reduce map_of.simps empty_map_add)

lemma group_keys:
  "fst ` set (map (\<lambda>f. (name f, dv f)) (filter P fs)) = name ` {f \<in> set fs. P f}"
  by (induction fs) auto

lemma keys_inner_cleared:
  "fst ` set (inner_cleared defaults today md) =
     name ` {f \<in> set (md_fields md). is_numeric (ftype f)} \<union>
     name ` {f \<in> set (md_fields md). ftype f = ''String'' \<or> ftype f = ''Guid''} \<union>
     name ` {f \<in> set (md_fields md). ftype f = ''Boolean''} \<union>
     name ` {f \<in> set (md_fields md). ftype f = ''DateTime''} \<union>
     name ` {f \<in> set (md_fields md). ftype f = ''Lookup''}"
  unfolding inner_cleared_def numericDefaults_def stringDefaults_def
      booleanDefaults_def dateDefaults_def nullableLookupDefaults_def
  by (simp only: keys_assign_all keys_reduce_fields group_keys list.set image_empty Un_empty_left)

lemma clearedValues_inner:
  "clearedValues defaults today md =
     AList.update ''_ui_info_'' ui_info_default (inner_cleared defaults today md)"
  by (simp add: clearedValues_def inner_cleared_def)

lemma inner_cleared_SomeD:
  assumes nodef: "defaults = None \<or> defaults = Some []"
    and m: "map_of (inner_cleared defaults today md) k = Some v"
  shows "\<exists>f \<in> set (md_fields md).
           known_type (ftype f) \<and> name f = k \<and> v = spec_default today f"
proof -
  from m consider
      (num) "map_of (rev (numericDefaults md)) k = Some v"
    | (str) "map_of (rev (stringDefaults md)) k = Some v"
    | (bool) "map_of (rev (booleanDefaults md)) k = Some v"
    | (date) "map_of (rev (dateDefaults today md)) k = Some v"
    | (look) "map_of (rev (nullableLookupDefaults defaults md)) k = Some v"
    unfolding map_of_inner_cleared by (auto simp: map_add_Some_iff)
  then show ?thesis
  proof cases
    case num
    then have "(k, v) \<in> set (numericDefaults md)" by (auto dest: map_of_SomeD)
    then obtain f where f: "f \<in> set (md_fields md)" "is_numeric (ftype f)" "name f = k"
      "v = (if isNullable f then JStr [] else JNum 0)"
      unfolding numericDefaults_def by auto
    then have "v = spec_default today f" by (simp add: spec_default_def)
    moreover have "known_type (ftype f)" using f(2) unfolding known_type_def by argo
    ultimately show ?thesis using f(1,3) by blast
  next
    case str
    then have "(k, v) \<in> set (stringDefaults md)" by (auto dest: map_of_SomeD)
    then obtain f where f: "f \<in> set (md_fields md)" "ftype f = ''String'' \<or> ftype f = ''Guid''"
      "name f = k" "v = JStr []"
      unfolding stringDefaults_def by auto
    then have "v = spec_default today f" by (auto simp add: spec_default_def is_numeric_def)
    moreover have "known_type (ftype f)" using f(2) unfolding known_type_def by argo
    ultimately show ?thesis using f(1,3) by blast
  next
    case bool
    then have "(k, v) \<in> set (booleanDefaults md)" by (auto dest: map_of_SomeD)
    then obtain f where f: "f \<in> set (md_fields md)" "ftype f = ''Boolean''"
      "name f = k" "v = JBool False"
      unfolding booleanDefaults_def by auto
    then have "v = spec_default today f" by (simp add: spec_default_def is_numeric_def)
    moreover have "known_type (ftype f)" using f(2) unfolding known_type_def by argo
    ultimately show ?thesis using f(1,3) by blast
  next
    case date
    then have "(k, v) \<in> set (dateDefaults today md)" by (auto dest: map_of_SomeD)
    then obtain f where f: "f \<in> set (md_fields md)" "ftype f = ''DateTime''"
      "name f = k" "v = (if isNullable f then Null else JStr today)"
      unfolding dateDefaults_def by auto
    then have "v = spec_default today f" by (simp add: spec_default_def is_numeric_def)
    moreover have "known_type (ftype f)" using f(2) unfolding known_type_def by argo
    ultimately show ?thesis using f(1,3) by blast
  next
    case look
    have ld: "lookupDefault defaults n = Null" for n
      using nodef by (rule lookupDefault_none)
    from look have "(k, v) \<in> set (nullableLookupDefaults defaults md)"
      by (auto dest: map_of_SomeD)
    then obtain f where f: "f \<in> set (md_fields md)" "ftype f = ''Lookup''"
      "name f = k" "v = Null"
      unfolding nullableLookupDefaults_def by (auto simp: ld)
    then have "v = spec_default today f" by (simp add: spec_default_def is_numeric_def)
    moreover have "known_type (ftype f)" using f(2) unfolding known_type_def by argo
    ultimately show ?thesis using f(1,3) by blast
  qed
qed

lemma inner_cleared_distinct:
  assumes nodef: "defaults = None \<or> defaults = Some []"
    and d: "distinct (map name (md_fields md))"
    and f: "f \<in> set (md_fields md)"
    and kt: "known_type (ftype f)"
  shows "map_of (inner_cleared defaults today md) (name f) = Some (spec_default today f)"
proof -
  have k: "name f \<in> fst ` set (inner_cleared defaults today md)"
    unfolding keys_inner_cleared using f kt unfolding known_type_def by blast
  then have "map_of (inner_cleared defaults today md) (name f) \<noteq> None"
    by (simp add: map_of_eq_None_iff)
  then obtain v where v: "map_of (inner_cleared defaults today md) (name f) = Some v"
    by blast
  from inner_cleared_SomeD [OF nodef v] obtain g where
    g: "g \<in> set (md_fields md)" "name g = name f" "v = spec_default today g" by blast
  have "inj_on name (set (md_fields md))" using d by (simp add: distinct_map)
  then have "g = f" using g f by (auto dest: inj_onD)
  then show ?thesis using v g by simp
qed

lemma map_of_clearedValues:
  "map_of (clearedValues defaults today md) =
     (map_of (inner_cleared defaults today md))(''_ui_info_'' \<mapsto> ui_info_default)"
  by (simp add: clearedValues_inner AList.update_conv')

lemma keys_clearedValues:
  "fst ` set (clearedValues defaults today md) =
     insert ''_ui_info_'' (fst ` set (inner_cleared defaults today md))"
  by (simp add: clearedValues_inner AList.dom_update)

lemma create_path:
  assumes "defaults = None \<or> defaults = Some []"
  shows "snd (getInitialData tname defaults today (Some md) Undefined) =
           JObj (clearedValues defaults today md)"
  using assms by (auto simp: getInitialData_def getClearedValues_def reduce_fields_def assign_all_def)

lemma known_split:
  "{f \<in> set fs. known_type (ftype f)} =
     {f \<in> set fs. is_numeric (ftype f)} \<union>
     {f \<in> set fs. ftype f = ''String'' \<or> ftype f = ''Guid''} \<union>
     {f \<in> set fs. ftype f = ''Boolean''} \<union>
     {f \<in> set fs. ftype f = ''DateTime''} \<union>
     {f \<in> set fs. ftype f = ''Lookup''}"
  unfolding known_type_def by (intro set_eqI) (simp only: mem_Collect_eq Un_iff, argo)

lemma keys_inner_known:
  "fst ` set (inner_cleared defaults today md) =
     name ` {f \<in> set (md_fields md). known_type (ftype f)}"
  unfolding keys_inner_cleared known_split by (simp only: image_Un)

text \<open>
  C3, as the code has it. For every schema, without caller defaults, the buffer of the
  create path has as keys exactly the names of the fields whose type is one of the ten names
  that \<^verbatim>\<open>getClearedValues\<close> compares with, plus the reserved key; so exactly the field names
  plus the reserved key when every field has such a type. The reserved key holds
  \<^verbatim>\<open>{canUpdate: true, canDelete: true}\<close>; every other key holds the default, by type, of a
  field of that name with such a type; and when the field names are distinct, every field
  with such a type that is not named like the reserved key holds its own default.
\<close>

theorem create_buffer_defaults:
  assumes nodef: "defaults = None \<or> defaults = Some []"
  shows "\<exists>buf. snd (getInitialData tname defaults today (Some md) Undefined) = JObj buf
     \<and> fst ` set buf =
         name ` {f \<in> set (md_fields md). known_type (ftype f)} \<union> {''_ui_info_''}
     \<and> obj_get buf ''_ui_info_'' = ui_info_default
     \<and> (\<forall>k \<in> fst ` set buf. k \<noteq> ''_ui_info_'' \<longrightarrow>
           (\<exists>f \<in> set (md_fields md).
              known_type (ftype f) \<and> name f = k \<and> obj_get buf k = spec_default today f))
     \<and> (distinct (map name (md_fields md)) \<longrightarrow>
           (\<forall>f \<in> set (md_fields md). known_type (ftype f) \<longrightarrow> name f \<noteq> ''_ui_info_'' \<longrightarrow>
              obj_get buf (name f) = spec_default today f))
     \<and> ((\<forall>f \<in> set (md_fields md). known_type (ftype f)) \<longrightarrow>
           fst ` set buf = name ` set (md_fields md) \<union> {''_ui_info_''})"
proof -
  let ?buf = "clearedValues defaults today md"
  let ?inner = "inner_cleared defaults today md"
  note keys_inner = keys_inner_known [of defaults today md]
  have keys: "fst ` set ?buf =
      name ` {f \<in> set (md_fields md). known_type (ftype f)} \<union> {''_ui_info_''}"
    by (simp add: keys_clearedValues keys_inner)
  have ui: "obj_get ?buf ''_ui_info_'' = ui_info_default"
    by (simp add: obj_get_def map_of_clearedValues)
  have some: "\<exists>f \<in> set (md_fields md).
        known_type (ftype f) \<and> name f = k \<and> obj_get ?buf k = spec_default today f"
    if k: "k \<in> fst ` set ?buf" and ne: "k \<noteq> ''_ui_info_''" for k
  proof -
    from k ne have "k \<in> fst ` set ?inner" by (simp add: keys_clearedValues)
    then have "map_of ?inner k \<noteq> None" by (simp add: map_of_eq_None_iff)
    then obtain v where v: "map_of ?inner k = Some v" by blast
    from inner_cleared_SomeD [OF nodef v] obtain f where
      f: "f \<in> set (md_fields md)" "known_type (ftype f)" "name f = k"
         "v = spec_default today f" by blast
    have "obj_get ?buf k = v" using v ne by (simp add: obj_get_def map_of_clearedValues)
    with f show ?thesis by blast
  qed
  have dist: "obj_get ?buf (name f) = spec_default today f"
    if d: "distinct (map name (md_fields md))" and f: "f \<in> set (md_fields md)"
      and kt: "known_type (ftype f)" and ne: "name f \<noteq> ''_ui_info_''" for f
  proof -
    from inner_cleared_distinct [OF nodef d f kt] ne
    show ?thesis by (simp add: obj_get_def map_of_clearedValues)
  qed
  have all: "fst ` set ?buf = name ` set (md_fields md) \<union> {''_ui_info_''}"
    if "\<forall>f \<in> set (md_fields md). known_type (ftype f)"
  proof -
    have "{f \<in> set (md_fields md). known_type (ftype f)} = set (md_fields md)"
      using that by blast
    then show ?thesis using keys by simp
  qed
  show ?thesis
  proof (rule exI [of _ ?buf], intro conjI)
    show "snd (getInitialData tname defaults today (Some md) Undefined) = JObj ?buf"
      by (rule create_path [OF nodef])
    show "fst ` set ?buf =
        name ` {f \<in> set (md_fields md). known_type (ftype f)} \<union> {''_ui_info_''}"
      by (rule keys)
    show "obj_get ?buf ''_ui_info_'' = ui_info_default"
      by (rule ui)
    show "\<forall>k \<in> fst ` set ?buf. k \<noteq> ''_ui_info_'' \<longrightarrow>
           (\<exists>f \<in> set (md_fields md).
              known_type (ftype f) \<and> name f = k \<and> obj_get ?buf k = spec_default today f)"
      by (intro ballI impI) (rule some)
    show "distinct (map name (md_fields md)) \<longrightarrow>
           (\<forall>f \<in> set (md_fields md). known_type (ftype f) \<longrightarrow> name f \<noteq> ''_ui_info_'' \<longrightarrow>
              obj_get ?buf (name f) = spec_default today f)"
      by (intro ballI impI) (rule dist)
    show "(\<forall>f \<in> set (md_fields md). known_type (ftype f)) \<longrightarrow>
           fst ` set ?buf = name ` set (md_fields md) \<union> {''_ui_info_''}"
      by (intro impI) (rule all)
  qed
qed

theorem create_buffer_defaults_witness:
  "(\<exists>buf. snd (getInitialData ''Order'' None midnight (Some order_md) Undefined) = JObj buf \<and>
     fst ` set buf =
       {''Quantity'', ''Discount'', ''Note'', ''Paid'', ''Due'', ''CustomerId'', ''_ui_info_''} \<and>
     obj_get buf ''_ui_info_'' = JObj [(''canUpdate'', JBool True), (''canDelete'', JBool True)] \<and>
     obj_get buf ''Quantity'' = JNum 0 \<and>
     obj_get buf ''Discount'' = JStr [] \<and>
     obj_get buf ''Note'' = JStr [] \<and>
     obj_get buf ''Paid'' = JBool False \<and>
     obj_get buf ''Due'' = JStr midnight \<and>
     obj_get buf ''CustomerId'' = Null) \<and>
   (\<exists>buf. snd (getInitialData ''Person'' None midnight (Some mixed_md) Undefined) = JObj buf \<and>
     fst ` set buf = {''Visits'', ''Nick'', ''_ui_info_''} \<and>
     obj_get buf ''Visits'' = JNum 0 \<and>
     obj_get buf ''Nick'' = JStr [])"
proof -
  have nodef: "(None :: FieldValue list option) = None \<or> None = Some []" by simp
  have first: "\<exists>buf. snd (getInitialData ''Order'' None midnight (Some order_md) Undefined) = JObj buf \<and>
     fst ` set buf =
       {''Quantity'', ''Discount'', ''Note'', ''Paid'', ''Due'', ''CustomerId'', ''_ui_info_''} \<and>
     obj_get buf ''_ui_info_'' = JObj [(''canUpdate'', JBool True), (''canDelete'', JBool True)] \<and>
     obj_get buf ''Quantity'' = JNum 0 \<and>
     obj_get buf ''Discount'' = JStr [] \<and>
     obj_get buf ''Note'' = JStr [] \<and>
     obj_get buf ''Paid'' = JBool False \<and>
     obj_get buf ''Due'' = JStr midnight \<and>
     obj_get buf ''CustomerId'' = Null"
  proof -
    have types: "\<forall>f \<in> set (md_fields order_md). known_type (ftype f)"
      by (simp add: order_md_def known_type_def is_numeric_def)
    have d: "distinct (map name (md_fields order_md))"
      by (simp add: order_md_def)
    from create_buffer_defaults [OF nodef, of "''Order''" midnight order_md]
    obtain buf where all:
      "snd (getInitialData ''Order'' None midnight (Some order_md) Undefined) = JObj buf
       \<and> fst ` set buf =
           name ` {f \<in> set (md_fields order_md). known_type (ftype f)} \<union> {''_ui_info_''}
       \<and> obj_get buf ''_ui_info_'' = ui_info_default
       \<and> (\<forall>k \<in> fst ` set buf. k \<noteq> ''_ui_info_'' \<longrightarrow>
             (\<exists>f \<in> set (md_fields order_md).
                known_type (ftype f) \<and> name f = k \<and> obj_get buf k = spec_default midnight f))
       \<and> (distinct (map name (md_fields order_md)) \<longrightarrow>
             (\<forall>f \<in> set (md_fields order_md). known_type (ftype f) \<longrightarrow> name f \<noteq> ''_ui_info_'' \<longrightarrow>
                obj_get buf (name f) = spec_default midnight f))
       \<and> ((\<forall>f \<in> set (md_fields order_md). known_type (ftype f)) \<longrightarrow>
             fst ` set buf = name ` set (md_fields order_md) \<union> {''_ui_info_''})" ..
    note b = all [THEN conjunct1]
    note ui = all [THEN conjunct2, THEN conjunct2, THEN conjunct1]
    note own0 = all [THEN conjunct2, THEN conjunct2, THEN conjunct2, THEN conjunct2,
        THEN conjunct1, THEN mp, OF d]
    note keys = all [THEN conjunct2, THEN conjunct2, THEN conjunct2, THEN conjunct2,
        THEN conjunct2, THEN mp, OF types]
    have own: "obj_get buf (name f) = spec_default midnight f"
      if "f \<in> set (md_fields order_md)" "name f \<noteq> ''_ui_info_''" for f
      using own0 [THEN bspec, OF that(1), THEN mp, OF types [THEN bspec, OF that(1)],
          THEN mp, OF that(2)] .
    have k: "fst ` set buf =
         {''Quantity'', ''Discount'', ''Note'', ''Paid'', ''Due'', ''CustomerId'', ''_ui_info_''}"
      unfolding keys by (auto simp: order_md_def)
    have q: "obj_get buf ''Quantity'' = JNum 0"
      using own [of "md_fields order_md ! 0"]
      by (simp add: order_md_def spec_default_def is_numeric_def)
    have di: "obj_get buf ''Discount'' = JStr []"
      using own [of "md_fields order_md ! 1"]
      by (simp add: order_md_def spec_default_def is_numeric_def)
    have n: "obj_get buf ''Note'' = JStr []"
      using own [of "md_fields order_md ! 2"]
      by (simp add: order_md_def spec_default_def is_numeric_def)
    have p: "obj_get buf ''Paid'' = JBool False"
      using own [of "md_fields order_md ! 3"]
      by (simp add: order_md_def spec_default_def is_numeric_def)
    have du: "obj_get buf ''Due'' = JStr midnight"
      using own [of "md_fields order_md ! 4"]
      by (simp add: order_md_def spec_default_def is_numeric_def)
    have c: "obj_get buf ''CustomerId'' = Null"
      using own [of "md_fields order_md ! 5"]
      by (simp add: order_md_def spec_default_def is_numeric_def)
    have ui': "obj_get buf ''_ui_info_'' =
        JObj [(''canUpdate'', JBool True), (''canDelete'', JBool True)]"
      using ui by (simp only: ui_info_default_def)
    show ?thesis
      by (rule exI [of _ buf]) (intro conjI b k ui' q di n p du c)
  qed
  have second: "\<exists>buf. snd (getInitialData ''Person'' None midnight (Some mixed_md) Undefined) = JObj buf \<and>
     fst ` set buf = {''Visits'', ''Nick'', ''_ui_info_''} \<and>
     obj_get buf ''Visits'' = JNum 0 \<and>
     obj_get buf ''Nick'' = JStr []"
  proof -
    have d: "distinct (map name (md_fields mixed_md))"
      by (simp add: mixed_md_def)
    from create_buffer_defaults [OF nodef, of "''Person''" midnight mixed_md]
    obtain buf where all:
      "snd (getInitialData ''Person'' None midnight (Some mixed_md) Undefined) = JObj buf
       \<and> fst ` set buf =
           name ` {f \<in> set (md_fields mixed_md). known_type (ftype f)} \<union> {''_ui_info_''}
       \<and> obj_get buf ''_ui_info_'' = ui_info_default
       \<and> (\<forall>k \<in> fst ` set buf. k \<noteq> ''_ui_info_'' \<longrightarrow>
             (\<exists>f \<in> set (md_fields mixed_md).
                known_type (ftype f) \<and> name f = k \<and> obj_get buf k = spec_default midnight f))
       \<and> (distinct (map name (md_fields mixed_md)) \<longrightarrow>
             (\<forall>f \<in> set (md_fields mixed_md). known_type (ftype f) \<longrightarrow> name f \<noteq> ''_ui_info_'' \<longrightarrow>
                obj_get buf (name f) = spec_default midnight f))
       \<and> ((\<forall>f \<in> set (md_fields mixed_md). known_type (ftype f)) \<longrightarrow>
             fst ` set buf = name ` set (md_fields mixed_md) \<union> {''_ui_info_''})" ..
    note b = all [THEN conjunct1]
    note keys = all [THEN conjunct2, THEN conjunct1]
    note own0 = all [THEN conjunct2, THEN conjunct2, THEN conjunct2, THEN conjunct2,
        THEN conjunct1, THEN mp, OF d]
    have known: "{f \<in> set (md_fields mixed_md). known_type (ftype f)} =
        set (filter (\<lambda>f. known_type (ftype f)) (md_fields mixed_md))"
      by simp
    have k: "fst ` set buf = {''Visits'', ''Nick'', ''_ui_info_''}"
      unfolding keys known
      by (auto simp: mixed_md_def known_type_def is_numeric_def)
    have v: "obj_get buf ''Visits'' = JNum 0"
      using own0 [THEN bspec, of "md_fields mixed_md ! 0"]
      by (simp add: mixed_md_def spec_default_def is_numeric_def known_type_def)
    have n: "obj_get buf ''Nick'' = JStr []"
      using own0 [THEN bspec, of "md_fields mixed_md ! 2"]
      by (simp add: mixed_md_def spec_default_def is_numeric_def known_type_def)
    show ?thesis
      by (rule exI [of _ buf]) (intro conjI b k v n)
  qed
  from first second show ?thesis ..
qed

text \<open>
  C3 as stated fails: a field whose type name is not one of the ten gets no key. The
  buffer for \<open>person_md\<close> has the reserved key only.
\<close>

theorem create_buffer_keys_counterexample:
  "\<not> (\<exists>buf. snd (getInitialData ''Person'' None midnight (Some person_md) Undefined) = JObj buf \<and>
         fst ` set buf = name ` set (md_fields person_md) \<union> {''_ui_info_''})"
proof -
  have "snd (getInitialData ''Person'' None midnight (Some person_md) Undefined) =
          JObj [(''_ui_info_'', ui_info_default)]"
    by (simp add: getInitialData_def getClearedValues_def clearedValues_def person_md_def numericDefaults_def
        stringDefaults_def booleanDefaults_def dateDefaults_def nullableLookupDefaults_def
        reduce_fields_def assign_all_def is_numeric_def)
  then show ?thesis by (auto simp: person_md_def)
qed

section \<open>The update path\<close>

lemma map_of_fold_update_if:
  "map_of (fold (\<lambda>k object. if P k then AList.update k (g k) object else object) ks o0) k =
     (if k \<in> set ks \<and> P k then Some (g k) else map_of o0 k)"
  by (induction ks arbitrary: o0) (auto simp: AList.update_conv')

lemma distinct_fold_update_if:
  "distinct (map fst o0) \<Longrightarrow>
   distinct (map fst (fold (\<lambda>k object. if P k then AList.update k (g k) object else object) ks o0))"
  by (induction ks arbitrary: o0) (auto simp: AList.distinct_update)

lemma keeps_key_iff:
  "k \<in> fst ` set snap \<and> keeps_key tname md snap k \<longleftrightarrow> overlays tname md snap k"
  by (auto simp: keeps_key_def overlays_def find_None_iff image_iff)

lemma map_of_dataToUpdate:
  "map_of (dataToUpdate tname md snap) k =
     (if overlays tname md snap k then Some (obj_get snap k) else None)"
  unfolding dataToUpdate_def map_of_fold_update_if
  using keeps_key_iff [of k snap tname md] by simp

lemma distinct_dataToUpdate: "distinct (map fst (dataToUpdate tname md snap))"
  unfolding dataToUpdate_def by (rule distinct_fold_update_if) simp

text \<open>
  C4. For every schema and every snapshot that is an object, the buffer of the update path
  holds, at each key, the snapshot's value when the snapshot has the key with a value
  other than \<^verbatim>\<open>null\<close> and the key is a schema field, the reserved key or the table name
  followed by \<^verbatim>\<open>Id\<close>, and otherwise what the cleared values hold there (nothing, for a key
  they do not have).
\<close>

theorem update_buffer_overlay:
  "\<exists>buf. snd (getInitialData tname defaults today (Some md) (JObj snap)) = JObj buf \<and>
     (\<forall>k. map_of buf k =
        (if overlays tname md snap k then Some (obj_get snap k)
         else map_of (clearedValues defaults today md) k))"
proof -
  let ?buf = "assign_all (clearedValues defaults today md) (dataToUpdate tname md snap)"
  have "snd (getInitialData tname defaults today (Some md) (JObj snap)) = JObj ?buf"
    by (simp add: getInitialData_def getClearedValues_def entries_def)
  moreover have "map_of ?buf k =
      (if overlays tname md snap k then Some (obj_get snap k)
       else map_of (clearedValues defaults today md) k)" for k
    by (simp add: map_of_assign_all map_of_rev_distinct [OF distinct_dataToUpdate]
        map_add_def map_of_dataToUpdate)
  ultimately show ?thesis by blast
qed

theorem update_buffer_overlay_witness:
  "\<exists>buf. snd (getInitialData ''Widget'' None midnight (Some widget_md)
       (JObj [(''Id'', JStr ''1''), (''Name'', JStr ''A''), (''Status'', Null)])) = JObj buf \<and>
     map_of buf ''Name'' = Some (JStr ''A'') \<and>
     map_of buf ''Status'' = Some (JStr []) \<and>
     map_of buf ''Id'' = None"
proof -
  from update_buffer_overlay [of "''Widget''" None "midnight" widget_md
      "[(''Id'', JStr ''1''), (''Name'', JStr ''A''), (''Status'', Null)]"]
  obtain buf where b: "snd (getInitialData ''Widget'' None midnight (Some widget_md)
       (JObj [(''Id'', JStr ''1''), (''Name'', JStr ''A''), (''Status'', Null)])) = JObj buf"
    and k: "\<And>k. map_of buf k =
        (if overlays ''Widget'' widget_md [(''Id'', JStr ''1''), (''Name'', JStr ''A''), (''Status'', Null)] k
         then Some (obj_get [(''Id'', JStr ''1''), (''Name'', JStr ''A''), (''Status'', Null)] k)
         else map_of (clearedValues None midnight widget_md) k)"
    by blast
  have c: "clearedValues None midnight widget_md =
      [(''Name'', JStr []), (''Status'', JStr []), (''_ui_info_'', ui_info_default)]"
    by (simp add: clearedValues_def widget_md_def numericDefaults_def stringDefaults_def
        booleanDefaults_def dateDefaults_def nullableLookupDefaults_def reduce_fields_def
        assign_all_def is_numeric_def)
  have "map_of buf ''Name'' = Some (JStr ''A'')"
    unfolding k by (simp add: overlays_def obj_get_def widget_md_def)
  moreover have "map_of buf ''Status'' = Some (JStr [])"
    unfolding k c by (simp add: overlays_def obj_get_def widget_md_def)
  moreover have "map_of buf ''Id'' = None"
    unfolding k c by (simp add: overlays_def obj_get_def widget_md_def)
  ultimately show ?thesis using b by blast
qed

section \<open>Validation and the silent paths\<close>

lemma commit_Nil: "commit R h [] = h"
  by (simp add: commit_def)

lemma commit_append: "commit R h (es @ es') = commit R (commit R h es) es'"
  by (simp add: commit_def)

lemma commit_Dispatch: "state (commit R h [Dispatch a]) = R (state h) a"
  by (simp add: commit_def commit_effect_def)

lemma commit_warns: "commit R h (map (\<lambda>m. ConsoleWarn (w m)) ms) = h"
  by (induction ms) (simp_all add: commit_def commit_effect_def)

lemma dispatched_append: "dispatched (es @ es') = dispatched es @ dispatched es'"
  by (simp add: dispatched_def)

lemma dispatched_warns: "dispatched (map (\<lambda>m. ConsoleWarn (w m)) ms) = []"
  by (induction ms) (simp_all add: dispatched_def)

text \<open>
  C5, as the code has it. After a pass that did not throw: the result is \<^verbatim>\<open>true\<close> exactly
  when no message was produced; with messages, the one action dispatched is
  \<^verbatim>\<open>SET_VALIDATION_MESSAGES\<close> with all of them, in order; without, nothing at all is done, so
  the container, its earlier messages included, is as it was.
\<close>

theorem onValidate_outcome:
  assumes "snd (onValidate h e) = Inr ok"
  shows "ok = (found_messages h e = []) \<and>
     (found_messages h e \<noteq> [] \<longrightarrow>
        dispatched (fst (onValidate h e)) =
          [SET_VALIDATION_MESSAGES (map fst (found_messages h e))] \<and>
        state (commit R h (fst (onValidate h e))) =
          R (state h) (SET_VALIDATION_MESSAGES (map fst (found_messages h e)))) \<and>
     (found_messages h e = [] \<longrightarrow>
        fst (onValidate h e) = [] \<and> commit R h (fst (onValidate h e)) = h)"
proof (cases "found_messages h e = []")
  case True
  with assms show ?thesis
    by (auto simp: onValidate_def commit_Nil split: if_splits)
next
  case False
  with assms show ?thesis
    by (auto simp: onValidate_def Let_def commit_append commit_warns commit_Dispatch
        dispatched_append dispatched_warns dispatched_def split: if_splits)
qed

lemma widget_found: "found_messages widget_hook widget_env = []"
  by (simp add: found_messages_def widget_hook_def widget_state_def widget_md_def
      validate_field_def field_value_def entries_def obj_get_def)

lemma widget_validate: "onValidate widget_hook widget_env = ([], Inr True)"
  by (simp add: onValidate_def widget_found)
     (simp add: widget_hook_def widget_state_def nullish_def)

lemma blank_found:
  "found_messages blank_hook widget_env = [((''Name'', ''Name is required''), True)]"
  by (simp add: found_messages_def blank_hook_def widget_hook_def widget_state_def widget_md_def
      validate_field_def field_value_def entries_def obj_get_def)

lemma blank_validate:
  "snd (onValidate blank_hook widget_env) = Inr False"
  by (simp add: onValidate_def blank_found)
     (simp add: blank_hook_def widget_hook_def widget_state_def nullish_def)

theorem onValidate_outcome_witness:
  "(snd (onValidate widget_hook widget_env) = Inr True \<and>
    fst (onValidate widget_hook widget_env) = [] \<and>
    commit formbuilderReducer widget_hook (fst (onValidate widget_hook widget_env)) = widget_hook) \<and>
   (snd (onValidate blank_hook widget_env) = Inr False \<and>
    dispatched (fst (onValidate blank_hook widget_env)) =
      [SET_VALIDATION_MESSAGES [(''Name'', ''Name is required'')]] \<and>
    validationMessages (state (commit formbuilderReducer blank_hook
       (fst (onValidate blank_hook widget_env)))) = [(''Name'', ''Name is required'')])"
proof -
  have ok: "snd (onValidate widget_hook widget_env) = Inr True"
    by (simp add: widget_validate)
  have pass: "fst (onValidate widget_hook widget_env) = [] \<and>
      commit formbuilderReducer widget_hook (fst (onValidate widget_hook widget_env)) = widget_hook"
    using onValidate_outcome [OF ok, of formbuilderReducer] widget_found by blast
  have ne: "found_messages blank_hook widget_env \<noteq> []"
    by (simp add: blank_found)
  have fail: "dispatched (fst (onValidate blank_hook widget_env)) =
        [SET_VALIDATION_MESSAGES (map fst (found_messages blank_hook widget_env))] \<and>
      state (commit formbuilderReducer blank_hook (fst (onValidate blank_hook widget_env))) =
        formbuilderReducer (state blank_hook)
          (SET_VALIDATION_MESSAGES (map fst (found_messages blank_hook widget_env)))"
    using onValidate_outcome [OF blank_validate, of formbuilderReducer] ne by blast
  show ?thesis
    using ok pass blank_validate fail
    by (simp add: blank_found formbuilderReducer_def commit_Nil)
qed

text \<open>
  C5 as stated fails in its second half: a pass without messages does not clear the
  messages of the container. Here the pass succeeds and the earlier message stays.
\<close>

theorem onValidate_keeps_messages_counterexample:
  "snd (onValidate widget_hook widget_env) = Inr True \<and>
   found_messages widget_hook widget_env = [] \<and>
   validationMessages (state (commit formbuilderReducer widget_hook
       (fst (onValidate widget_hook widget_env)))) = [(''Name'', ''Name is required'')]"
  by (simp add: widget_validate widget_found commit_Nil)
     (simp add: widget_hook_def widget_state_def)

text \<open>
  C6. When the \<^verbatim>\<open>preValidate\<close> given to \<^verbatim>\<open>save\<close> answers \<^verbatim>\<open>continue: false\<close>, the call of
  that hook is all that \<^verbatim>\<open>save\<close> does: no validation, no dispatch, no other hook or
  listener, no request. Whatever the reducer, the container is as it was.
\<close>

theorem preValidate_abort:
  assumes "preValidate hooks = Some pv"
    and "\<not> continue (pv (JObj (submissionData h)))"
  shows "onSave h e hooks = ([CallPreValidate (JObj (submissionData h))], Inr ()) \<and>
         commit R h (fst (onSave h e hooks)) = h"
  using assms by (simp add: onSave_def after_def commit_def commit_effect_def)

theorem preValidate_abort_witness:
  "onSave widget_hook widget_env stop_hooks =
     ([CallPreValidate (JObj (submissionData widget_hook))], Inr ()) \<and>
   commit formbuilderReducer widget_hook (fst (onSave widget_hook widget_env stop_hooks)) =
     widget_hook"
proof -
  have a: "preValidate stop_hooks = Some (\<lambda>d. \<lparr>continue = False, parameters = Undefined\<rparr>)"
    by (simp add: stop_hooks_def)
  have b: "\<not> continue ((\<lambda>d. \<lparr>continue = False, parameters = Undefined\<rparr>)
              (JObj (submissionData widget_hook)))"
    by simp
  from preValidate_abort [OF a b] show ?thesis .
qed

text \<open>
  C10. \<^verbatim>\<open>saveSilent\<close> makes the one request, to the create endpoint when \<^verbatim>\<open>state.snapshot\<close>
  is \<^verbatim>\<open>undefined\<close> and to the update endpoint otherwise, and returns the data of the
  response (it throws when there is no response). It dispatches nothing and calls
  nothing else: whatever the reducer, the container is as it was.
\<close>

theorem onSaveSilent_frame:
  "fst (onSaveSilent h e ps) = [Execute (saveRequest h (data (state h)) ps)] \<and>
   snd (onSaveSilent h e ps) =
     (case execute e (saveRequest h (data (state h)) ps) of
        None \<Rightarrow> Inl TypeError
      | Some r \<Rightarrow> Inr (resp_data r)) \<and>
   url (saveRequest h (data (state h)) ps) =
     (if snapshot (state h) = Undefined then API_DATA_CREATE else API_DATA_UPDATE) \<and>
   http (saveRequest h (data (state h)) ps) =
     (if snapshot (state h) = Undefined then POST else PATCH) \<and>
   commit R h (fst (onSaveSilent h e ps)) = h"
  by (simp add: onSaveSilent_def saveRequest_def commit_def commit_effect_def)

section \<open>Saving\<close>

lemma after_after: "after es (after es' r) = after (es @ es') r"
  by (simp add: after_def)

lemma fst_after: "fst (after es r) = es @ fst r"
  by (simp add: after_def)

lemma snd_after: "snd (after es r) = snd r"
  by (simp add: after_def)

lemma onSave_to_listeners:
  assumes "pre_listener_gates h e hooks"
  shows "onSave h e hooks =
           after (save_prefix h e hooks)
             (listenersStage h e hooks (submissionData h) (pre_listener_parameters h hooks))"
proof -
  obtain es where v: "onValidate h e = (es, Inr True)"
    using assms by (cases "onValidate h e") (auto simp: pre_listener_gates_def)
  show ?thesis
    using assms v
    by (cases "preValidate hooks"; cases "props_onPreSave (props h)")
       (simp_all add: pre_listener_gates_def onSave_def validateStage_def instancePreSave_def
          save_prefix_def pre_listener_parameters_def after_def)
qed

lemma upt_Suc_Suc: "[0..<Suc (Suc k)] = 0 # map Suc [0..<Suc k]"
proof -
  have "[0..<Suc (Suc k)] = 0 # [Suc 0..<Suc (Suc k)]"
    by (rule upt_conv_Cons) simp
  also have "[Suc 0..<Suc (Suc k)] = map Suc [0..<Suc k]"
    by (rule map_Suc_upt [symmetric])
  finally show ?thesis .
qed

lemma preSaveListeners_first_false:
  assumes "i < length evs"
    and "fst (evs ! i) = ''PRE_SAVE''"
    and "snd (evs ! i) sd ps = JBool False"
    and "\<forall>j<i. fst (evs ! j) = ''PRE_SAVE'' \<longrightarrow> snd (evs ! j) sd ps \<noteq> JBool False"
  shows "preSaveListeners evs n sd ps =
           (map (\<lambda>j. CallListener (n + j) [sd, ps])
              (filter (\<lambda>j. fst (evs ! j) = ''PRE_SAVE'') [0..<Suc i]), True)"
  using assms
proof (induction evs arbitrary: n i)
  case Nil
  then show ?case by simp
next
  case (Cons ev evs)
  show ?case
  proof (cases i)
    case 0
    with Cons.prems show ?thesis by simp
  next
    case (Suc k)
    have k: "k < length evs" "fst (evs ! k) = ''PRE_SAVE''" "snd (evs ! k) sd ps = JBool False"
      using Cons.prems Suc by simp_all
    have earlier: "\<forall>j<k. fst (evs ! j) = ''PRE_SAVE'' \<longrightarrow> snd (evs ! j) sd ps \<noteq> JBool False"
    proof (intro allI impI)
      fix j assume "j < k" "fst (evs ! j) = ''PRE_SAVE''"
      then show "snd (evs ! j) sd ps \<noteq> JBool False"
        using Cons.prems(4) [rule_format, of "Suc j"] Suc by simp
    qed
    have head: "fst ev = ''PRE_SAVE'' \<Longrightarrow> snd ev sd ps \<noteq> JBool False"
      using Cons.prems(4) [rule_format, of 0] Suc by simp
    have IH: "preSaveListeners evs (Suc n) sd ps =
           (map (\<lambda>j. CallListener (Suc n + j) [sd, ps])
              (filter (\<lambda>j. fst (evs ! j) = ''PRE_SAVE'') [0..<Suc k]), True)"
      using Cons.IH [OF k earlier] .
    show ?thesis
      unfolding Suc upt_Suc_Suc
      using head by (simp add: IH filter_map comp_def del: upt_Suc)
  qed
qed

lemma upt_0_Suc: "[0..<Suc k] = 0 # map Suc [0..<k]"
proof -
  have "[0..<Suc k] = 0 # [Suc 0..<Suc k]"
    by (rule upt_conv_Cons) simp
  also have "[Suc 0..<Suc k] = map Suc [0..<k]"
    by (rule map_Suc_upt [symmetric])
  finally show ?thesis .
qed

lemma preSaveListeners_all_called:
  assumes "\<forall>j<length evs. fst (evs ! j) = ''PRE_SAVE'' \<longrightarrow> snd (evs ! j) sd ps \<noteq> JBool False"
  shows "preSaveListeners evs n sd ps =
           (map (\<lambda>j. CallListener (n + j) [sd, ps])
              (filter (\<lambda>j. fst (evs ! j) = ''PRE_SAVE'') [0..<length evs]), False)"
  using assms
proof (induction evs arbitrary: n)
  case Nil
  then show ?case by simp
next
  case (Cons ev evs)
  have rest: "\<forall>j<length evs. fst (evs ! j) = ''PRE_SAVE'' \<longrightarrow> snd (evs ! j) sd ps \<noteq> JBool False"
  proof (intro allI impI)
    fix j assume "j < length evs" "fst (evs ! j) = ''PRE_SAVE''"
    then show "snd (evs ! j) sd ps \<noteq> JBool False"
      using Cons.prems [rule_format, of "Suc j"] by simp
  qed
  have head: "fst ev = ''PRE_SAVE'' \<Longrightarrow> snd ev sd ps \<noteq> JBool False"
    using Cons.prems [rule_format, of 0] by simp
  have IH: "preSaveListeners evs (Suc n) sd ps =
           (map (\<lambda>j. CallListener (Suc n + j) [sd, ps])
              (filter (\<lambda>j. fst (evs ! j) = ''PRE_SAVE'') [0..<length evs]), False)"
    using Cons.IH [OF rest] .
  have len: "[0..<length (ev # evs)] = 0 # map Suc [0..<length evs]"
    using upt_0_Suc [of "length evs"] by simp
  show ?case
    unfolding len
    using head by (simp add: IH filter_map comp_def del: upt_Suc)
qed

lemma executed_append: "executed (es @ es') = executed es @ executed es'"
  by (simp add: executed_def)

lemma executed_Nil: "executed [] = []"
  by (simp add: executed_def)

lemma executed_Cons:
  "executed (x # es) = (case x of Execute r \<Rightarrow> [r] | _ \<Rightarrow> []) @ executed es"
  by (simp add: executed_def)

lemma executed_onValidate: "executed (fst (onValidate h e)) = []"
proof -
  have w: "executed (map (\<lambda>m. ConsoleWarn (snd (fst m))) ms) = []" for ms :: "(ValidationMessage \<times> bool) list"
    by (induction ms) (simp_all add: executed_def)
  show ?thesis
    by (simp add: onValidate_def Let_def executed_append w executed_Cons executed_Nil)
qed

lemma executed_save_prefix: "executed (save_prefix h e hooks) = []"
  by (cases "preValidate hooks"; cases "props_onPreSave (props h)")
     (simp_all add: save_prefix_def executed_append executed_onValidate executed_Cons executed_Nil)

lemma executed_listener_calls: "executed (map (\<lambda>j. CallListener (f j) (g j)) js) = []"
  by (induction js) (simp_all add: executed_def)

text \<open>
  C7. When \<^verbatim>\<open>save\<close> reaches the loop over \<^verbatim>\<open>eventListeners\<close>, the \<^verbatim>\<open>PRE_SAVE\<close> listeners are
  called in registration order, each with the copy of the buffer and the parameters
  gathered so far. If listener \<open>i\<close> is the first of them to return \<^verbatim>\<open>false\<close>, the run is: what
  came before the loop, the calls of the \<^verbatim>\<open>PRE_SAVE\<close> listeners at positions up to \<open>i\<close>, then
  \<^verbatim>\<open>SUBMIT_CANCELLED\<close>, and nothing more: no later listener is called and no request is
  made. If none of them returns \<^verbatim>\<open>false\<close>, the run is: what came before the loop, the calls
  of all the \<^verbatim>\<open>PRE_SAVE\<close> listeners in registration order, then what \<^verbatim>\<open>save\<close> does from the
  \<^verbatim>\<open>preSaveEvent\<close> of the call on.
\<close>

theorem pre_save_listeners_in_order:
  assumes gates: "pre_listener_gates h e hooks"
  shows "(i < length (eventListeners h) \<and>
          fst (eventListeners h ! i) = ''PRE_SAVE'' \<and>
          snd (eventListeners h ! i) (JObj (submissionData h))
            (JObj (pre_listener_parameters h hooks)) = JBool False \<and>
          (\<forall>j<i. fst (eventListeners h ! j) = ''PRE_SAVE'' \<longrightarrow>
             snd (eventListeners h ! j) (JObj (submissionData h))
               (JObj (pre_listener_parameters h hooks)) \<noteq> JBool False) \<longrightarrow>
          onSave h e hooks =
            (save_prefix h e hooks @
             map (\<lambda>j. CallListener j
                    [JObj (submissionData h), JObj (pre_listener_parameters h hooks)])
               (filter (\<lambda>j. fst (eventListeners h ! j) = ''PRE_SAVE'') [0..<Suc i]) @
             [Dispatch SUBMIT_CANCELLED],
             Inr ()) \<and>
          executed (fst (onSave h e hooks)) = []) \<and>
         ((\<forall>j<length (eventListeners h). fst (eventListeners h ! j) = ''PRE_SAVE'' \<longrightarrow>
             snd (eventListeners h ! j) (JObj (submissionData h))
               (JObj (pre_listener_parameters h hooks)) \<noteq> JBool False) \<longrightarrow>
          onSave h e hooks =
            after
              (save_prefix h e hooks @
               map (\<lambda>j. CallListener j
                      [JObj (submissionData h), JObj (pre_listener_parameters h hooks)])
                 (filter (\<lambda>j. fst (eventListeners h ! j) = ''PRE_SAVE'')
                    [0..<length (eventListeners h)]))
              (callSitePreSave h e hooks (submissionData h) (pre_listener_parameters h hooks)))"
proof (intro conjI impI)
  assume a: "i < length (eventListeners h) \<and>
          fst (eventListeners h ! i) = ''PRE_SAVE'' \<and>
          snd (eventListeners h ! i) (JObj (submissionData h))
            (JObj (pre_listener_parameters h hooks)) = JBool False \<and>
          (\<forall>j<i. fst (eventListeners h ! j) = ''PRE_SAVE'' \<longrightarrow>
             snd (eventListeners h ! j) (JObj (submissionData h))
               (JObj (pre_listener_parameters h hooks)) \<noteq> JBool False)"
  note i = a [THEN conjunct1]
  note pre = a [THEN conjunct2, THEN conjunct1]
  note no = a [THEN conjunct2, THEN conjunct2, THEN conjunct1]
  note earlier = a [THEN conjunct2, THEN conjunct2, THEN conjunct2]
  show run: "onSave h e hooks =
           (save_prefix h e hooks @
            map (\<lambda>j. CallListener j [JObj (submissionData h), JObj (pre_listener_parameters h hooks)])
              (filter (\<lambda>j. fst (eventListeners h ! j) = ''PRE_SAVE'') [0..<Suc i]) @
            [Dispatch SUBMIT_CANCELLED],
            Inr ())"
    unfolding onSave_to_listeners [OF gates] listenersStage_def
      preSaveListeners_first_false [OF i pre no earlier]
    by (simp add: after_def)
  show "executed (fst (onSave h e hooks)) = []"
    unfolding run
    by (simp add: executed_append executed_save_prefix executed_listener_calls executed_Cons
        executed_Nil)
next
  assume none: "\<forall>j<length (eventListeners h). fst (eventListeners h ! j) = ''PRE_SAVE'' \<longrightarrow>
             snd (eventListeners h ! j) (JObj (submissionData h))
               (JObj (pre_listener_parameters h hooks)) \<noteq> JBool False"
  show "onSave h e hooks =
            after
              (save_prefix h e hooks @
               map (\<lambda>j. CallListener j
                      [JObj (submissionData h), JObj (pre_listener_parameters h hooks)])
                 (filter (\<lambda>j. fst (eventListeners h ! j) = ''PRE_SAVE'')
                    [0..<length (eventListeners h)]))
              (callSitePreSave h e hooks (submissionData h) (pre_listener_parameters h hooks))"
    unfolding onSave_to_listeners [OF gates] listenersStage_def
      preSaveListeners_all_called [OF none]
    by (simp add: after_def)
qed

lemma executed_preSaveListeners: "executed (fst (preSaveListeners evs n sd ps)) = []"
  by (induction evs arbitrary: n) (simp_all add: executed_def)

lemma executed_postSaveListeners: "executed (postSaveListeners evs n args) = []"
  by (induction evs arbitrary: n) (simp_all add: executed_def)

lemma executed_notify: "executed (notify h hooks op rid d) = []"
  by (simp add: notify_def executed_append executed_postSaveListeners executed_Cons executed_Nil)

lemma executed_postSave: "executed (fst (postSave h hooks resp)) = []"
  by (simp add: postSave_def executed_notify executed_Nil split: option.splits sum.splits)

lemma executed_reload: "executed (reloadDataTables h) = []"
  by (induction "childDataTables h" arbitrary: h)
     (simp_all add: reloadDataTables_def executed_def)

lemma executed_persist:
  "executed (fst (persist h e hooks sd ps)) = [saveRequest h (JObj sd) (JObj ps)]"
proof -
  obtain es r where p: "postSave h hooks (execute e (saveRequest h (JObj sd) (JObj ps))) = (es, r)"
    by (cases "postSave h hooks (execute e (saveRequest h (JObj sd) (JObj ps)))") blast
  then have es: "executed es = []"
    using executed_postSave [of h hooks "execute e (saveRequest h (JObj sd) (JObj ps))"] by simp
  show ?thesis
    by (cases r)
       (simp_all add: persist_def p after_def executed_append es executed_Cons executed_Nil
          executed_reload)
qed

lemma onSave_to_persist:
  assumes "save_gates h e hooks"
  shows "\<exists>es. onSave h e hooks =
           after es (persist h e hooks (submissionData h) (accumulated_parameters h hooks)) \<and>
           executed es = []"
proof -
  from assms have gates: "pre_listener_gates h e hooks"
    and quiet: "\<not> snd (preSaveListeners (eventListeners h) 0 (JObj (submissionData h))
               (JObj (pre_listener_parameters h hooks)))"
    and last: "case preSaveEvent hooks of
         None \<Rightarrow> True
       | Some ev \<Rightarrow> continue (ev (JObj (submissionData h)))"
    by (simp_all add: save_gates_def)
  let ?calls = "fst (preSaveListeners (eventListeners h) 0 (JObj (submissionData h))
               (JObj (pre_listener_parameters h hooks)))"
  let ?mine = "case preSaveEvent hooks of None \<Rightarrow> []
               | Some ev \<Rightarrow> [CallPreSaveEvent (JObj (submissionData h))]"
  have run: "onSave h e hooks =
      after (save_prefix h e hooks @ ?calls @ ?mine)
        (persist h e hooks (submissionData h) (accumulated_parameters h hooks))"
    unfolding onSave_to_listeners [OF gates] listenersStage_def
    using quiet last
    by (cases "preSaveEvent hooks")
       (simp_all add: callSitePreSave_def accumulated_parameters_def after_def)
  have "executed ?mine = []"
    by (cases "preSaveEvent hooks") (simp_all add: executed_Cons executed_Nil)
  then have "executed (save_prefix h e hooks @ ?calls @ ?mine) = []"
    by (simp add: executed_append executed_save_prefix executed_preSaveListeners)
  with run show ?thesis by blast
qed

text \<open>
  C2. When \<^verbatim>\<open>save\<close> reaches the persistence step it makes exactly one request: to the
  create endpoint with \<^verbatim>\<open>POST\<close> when \<^verbatim>\<open>state.snapshot\<close> is \<^verbatim>\<open>undefined\<close>, to the update
  endpoint with \<^verbatim>\<open>PATCH\<close> otherwise; its body holds the table name of the metadata, the
  copy of the buffer taken when \<^verbatim>\<open>save\<close> started, and the accumulated parameters.
\<close>

theorem save_request:
  assumes "save_gates h e hooks"
  shows "executed (fst (onSave h e hooks)) =
     [\<lparr>url = (if snapshot (state h) = Undefined then API_DATA_CREATE else API_DATA_UPDATE),
       http = (if snapshot (state h) = Undefined then POST else PATCH),
       body_tableName =
         (case metadata (state h) of None \<Rightarrow> Undefined | Some md \<Rightarrow> JStr (tableName md)),
       body_fields = JObj (submissionData h),
       body_parameters = JObj (accumulated_parameters h hooks)\<rparr>]"
proof -
  from onSave_to_persist [OF assms] obtain es where
    run: "onSave h e hooks =
           after es (persist h e hooks (submissionData h) (accumulated_parameters h hooks))"
    and es: "executed es = []"
    by blast
  show ?thesis
    unfolding run fst_after executed_append es executed_persist
    by (simp add: saveRequest_def)
qed

lemma validate_field_eventListeners:
  "validate_field (h\<lparr>eventListeners := evs\<rparr>) e = validate_field h e"
  by (rule ext) (simp add: validate_field_def)

lemma found_messages_eventListeners:
  "found_messages (h\<lparr>eventListeners := evs\<rparr>) e = found_messages h e"
  by (simp add: found_messages_def validate_field_eventListeners)

lemma onValidate_eventListeners: "onValidate (h\<lparr>eventListeners := evs\<rparr>) e = onValidate h e"
  by (simp add: onValidate_def found_messages_eventListeners)

lemma validate_field_snapshot:
  "validate_field (h\<lparr>state := (state h)\<lparr>snapshot := s\<rparr>\<rparr>) e = validate_field h e"
  by (rule ext) (simp add: validate_field_def)

lemma found_messages_snapshot:
  "found_messages (h\<lparr>state := (state h)\<lparr>snapshot := s\<rparr>\<rparr>) e = found_messages h e"
  by (simp add: found_messages_def validate_field_snapshot)

lemma onValidate_snapshot:
  "onValidate (h\<lparr>state := (state h)\<lparr>snapshot := s\<rparr>\<rparr>) e = onValidate h e"
  by (simp add: onValidate_def found_messages_snapshot)

lemma guarded_gates: "pre_listener_gates guarded_hook widget_env plain_hooks"
  by (simp add: pre_listener_gates_def guarded_hook_def onValidate_eventListeners widget_validate
      plain_hooks_def)
     (simp add: widget_hook_def widget_props_def)

lemma guarded_parameters: "pre_listener_parameters guarded_hook plain_hooks = []"
  by (simp add: pre_listener_parameters_def guarded_hook_def plain_hooks_def widget_hook_def
      widget_props_def)

lemma guarded_prefix:
  "save_prefix guarded_hook widget_env plain_hooks = [RunValidate, Dispatch SET_IS_LOADING]"
  by (simp add: save_prefix_def guarded_hook_def onValidate_eventListeners widget_validate
      plain_hooks_def)
     (simp add: widget_hook_def widget_props_def)

lemma polite_gates: "pre_listener_gates polite_hook widget_env plain_hooks"
  by (simp add: pre_listener_gates_def polite_hook_def onValidate_eventListeners widget_validate
      plain_hooks_def)
     (simp add: widget_hook_def widget_props_def)

lemma polite_parameters: "pre_listener_parameters polite_hook plain_hooks = []"
  by (simp add: pre_listener_parameters_def polite_hook_def plain_hooks_def widget_hook_def
      widget_props_def)

lemma polite_prefix:
  "save_prefix polite_hook widget_env plain_hooks = [RunValidate, Dispatch SET_IS_LOADING]"
  by (simp add: save_prefix_def polite_hook_def onValidate_eventListeners widget_validate
      plain_hooks_def)
     (simp add: widget_hook_def widget_props_def)

lemma polite_persist:
  "callSitePreSave polite_hook widget_env plain_hooks (submissionData polite_hook) [] =
     ([Execute (saveRequest polite_hook (JObj (submissionData polite_hook)) (JObj [])),
       CallListener 1 [JStr ''CREATE'', JStr ''1'',
         JObj [(''WidgetId'', JStr ''1''), (''Name'', JStr ''Widget'')]],
       Dispatch SUBMIT_COMPLETE], Inr ())"
proof -
  have ex: "execute widget_env r = Some \<lparr>succeeded = True,
      resp_data = JObj [(''WidgetId'', JStr ''1''), (''Name'', JStr ''Widget'')]\<rparr>" for r
    by (simp add: widget_env_def)
  have op: "operationName polite_hook = JStr ''CREATE''"
    by (simp add: operationName_def polite_hook_def widget_hook_def widget_state_def)
  have n: "notify polite_hook plain_hooks op rid d = [CallListener 1 [op, rid, d]]" for op rid d
    by (simp add: notify_def polite_hook_def plain_hooks_def widget_hook_def widget_props_def)
  have t: "props_tableName (props polite_hook) @ ''Id'' = ''WidgetId''"
    by (simp add: polite_hook_def widget_hook_def widget_props_def)
  have g: "get_prop (JObj [(''WidgetId'', JStr ''1''), (''Name'', JStr ''Widget'')]) ''WidgetId''
             = Inr (JStr ''1'')"
    by (simp add: get_prop_def obj_get_def)
  have ps: "postSave polite_hook plain_hooks (execute widget_env r) =
      ([CallListener 1 [JStr ''CREATE'', JStr ''1'',
         JObj [(''WidgetId'', JStr ''1''), (''Name'', JStr ''Widget'')]]], Inr ())" for r
    unfolding postSave_def ex t by (simp add: g n op)
  have rl: "reloadDataTables polite_hook = []"
    by (simp add: reloadDataTables_def polite_hook_def widget_hook_def)
  show ?thesis
    unfolding callSitePreSave_def persist_def ps rl
    by (simp add: plain_hooks_def after_def)
qed

theorem pre_save_listeners_in_order_witness:
  "onSave guarded_hook widget_env plain_hooks =
     ([RunValidate, Dispatch SET_IS_LOADING,
       CallListener 1 [JObj (submissionData guarded_hook), JObj []],
       CallListener 2 [JObj (submissionData guarded_hook), JObj []],
       Dispatch SUBMIT_CANCELLED], Inr ()) \<and>
   executed (fst (onSave guarded_hook widget_env plain_hooks)) = [] \<and>
   onSave polite_hook widget_env plain_hooks =
     ([RunValidate, Dispatch SET_IS_LOADING,
       CallListener 0 [JObj (submissionData polite_hook), JObj []],
       CallListener 2 [JObj (submissionData polite_hook), JObj []],
       Execute (saveRequest polite_hook (JObj (submissionData polite_hook)) (JObj [])),
       CallListener 1 [JStr ''CREATE'', JStr ''1'',
         JObj [(''WidgetId'', JStr ''1''), (''Name'', JStr ''Widget'')]],
       Dispatch SUBMIT_COMPLETE], Inr ())"
proof -
  have first: "2 < length (eventListeners guarded_hook) \<and>
      fst (eventListeners guarded_hook ! 2) = ''PRE_SAVE'' \<and>
      snd (eventListeners guarded_hook ! 2) (JObj (submissionData guarded_hook))
        (JObj (pre_listener_parameters guarded_hook plain_hooks)) = JBool False \<and>
      (\<forall>j<2. fst (eventListeners guarded_hook ! j) = ''PRE_SAVE'' \<longrightarrow>
         snd (eventListeners guarded_hook ! j) (JObj (submissionData guarded_hook))
           (JObj (pre_listener_parameters guarded_hook plain_hooks)) \<noteq> JBool False)"
    by (simp add: guarded_hook_def less_Suc_eq numeral_2_eq_2)
  have upt: "[0..<Suc 2] = [0, 1, 2]"
    by (simp add: numeral_2_eq_2)
  have js: "filter (\<lambda>j. fst (eventListeners guarded_hook ! j) = ''PRE_SAVE'') [0..<Suc 2] = [1, 2]"
    unfolding upt by (simp add: guarded_hook_def)
  have a: "onSave guarded_hook widget_env plain_hooks =
     ([RunValidate, Dispatch SET_IS_LOADING,
       CallListener 1 [JObj (submissionData guarded_hook), JObj []],
       CallListener 2 [JObj (submissionData guarded_hook), JObj []],
       Dispatch SUBMIT_CANCELLED], Inr ()) \<and>
     executed (fst (onSave guarded_hook widget_env plain_hooks)) = []"
    using pre_save_listeners_in_order [OF guarded_gates, of 2, THEN conjunct1, THEN mp, OF first]
    unfolding js guarded_prefix guarded_parameters
    by (simp add: executed_Cons executed_Nil)
  have none: "\<forall>j<length (eventListeners polite_hook).
      fst (eventListeners polite_hook ! j) = ''PRE_SAVE'' \<longrightarrow>
      snd (eventListeners polite_hook ! j) (JObj (submissionData polite_hook))
        (JObj (pre_listener_parameters polite_hook plain_hooks)) \<noteq> JBool False"
    by (simp add: polite_hook_def less_Suc_eq numeral_3_eq_3)
  have len: "[0..<length (eventListeners polite_hook)] = [0, 1, 2]"
    by (simp add: polite_hook_def)
  have ks: "filter (\<lambda>j. fst (eventListeners polite_hook ! j) = ''PRE_SAVE'')
              [0..<length (eventListeners polite_hook)] = [0, 2]"
    unfolding len by (simp add: polite_hook_def)
  have b: "onSave polite_hook widget_env plain_hooks =
     ([RunValidate, Dispatch SET_IS_LOADING,
       CallListener 0 [JObj (submissionData polite_hook), JObj []],
       CallListener 2 [JObj (submissionData polite_hook), JObj []],
       Execute (saveRequest polite_hook (JObj (submissionData polite_hook)) (JObj [])),
       CallListener 1 [JStr ''CREATE'', JStr ''1'',
         JObj [(''WidgetId'', JStr ''1''), (''Name'', JStr ''Widget'')]],
       Dispatch SUBMIT_COMPLETE], Inr ())"
    using pre_save_listeners_in_order [OF polite_gates, of 0, THEN conjunct2, THEN mp, OF none]
    unfolding ks polite_prefix polite_parameters polite_persist
    by (simp add: after_def)
  from a b show ?thesis by (intro conjI) (rule conjunct1, assumption, rule conjunct2, assumption, assumption)
qed

lemma plain_gates: "save_gates widget_hook widget_env plain_hooks"
  by (simp add: save_gates_def pre_listener_gates_def widget_validate plain_hooks_def)
     (simp add: widget_hook_def widget_props_def)

lemma plain_parameters: "accumulated_parameters widget_hook plain_hooks = []"
  by (simp add: accumulated_parameters_def pre_listener_parameters_def plain_hooks_def
      widget_hook_def widget_props_def)

lemma edit_validate: "onValidate edit_hook widget_env = ([], Inr True)"
proof -
  have eq: "edit_hook =
      (widget_hook\<lparr>state := (state widget_hook)\<lparr>snapshot :=
          JObj [(''WidgetId'', JStr ''1''), (''Name'', JStr ''Old''),
                (''_ui_info_'', ui_info_default)]\<rparr>\<rparr>)
        \<lparr>eventListeners := [(''PRE_SAVE'', \<lambda>d p. Undefined)]\<rparr>"
    by (simp add: edit_hook_def widget_hook_def)
  show ?thesis
    unfolding eq onValidate_eventListeners onValidate_snapshot by (rule widget_validate)
qed

lemma edit_gates: "save_gates edit_hook widget_env asking_hooks"
  by (simp add: save_gates_def pre_listener_gates_def edit_validate asking_hooks_def)
     (simp add: edit_hook_def widget_hook_def widget_props_def)

lemma edit_parameters:
  "accumulated_parameters edit_hook asking_hooks =
     [(''reason'', JStr ''edit''), (''force'', JBool True)]"
  by (simp add: accumulated_parameters_def pre_listener_parameters_def asking_hooks_def
      edit_hook_def widget_hook_def widget_props_def append_parameters_def assign_all_def
      entries_def)

theorem save_request_witness:
  "executed (fst (onSave widget_hook widget_env plain_hooks)) =
     [\<lparr>url = API_DATA_CREATE, http = POST, body_tableName = JStr ''Widget'',
       body_fields = JObj [(''Name'', JStr ''Widget''), (''Status'', JStr []),
                           (''_ui_info_'', ui_info_default)],
       body_parameters = JObj []\<rparr>] \<and>
   executed (fst (onSave edit_hook widget_env asking_hooks)) =
     [\<lparr>url = API_DATA_UPDATE, http = PATCH, body_tableName = JStr ''Widget'',
       body_fields = JObj [(''Name'', JStr ''Widget''), (''Status'', JStr []),
                           (''_ui_info_'', ui_info_default)],
       body_parameters = JObj [(''reason'', JStr ''edit''), (''force'', JBool True)]\<rparr>]"
proof -
  have sd: "submissionData widget_hook =
      [(''Name'', JStr ''Widget''), (''Status'', JStr []), (''_ui_info_'', ui_info_default)]"
    by (simp add: submissionData_def widget_hook_def widget_state_def entries_def)
  have sd': "submissionData edit_hook =
      [(''Name'', JStr ''Widget''), (''Status'', JStr []), (''_ui_info_'', ui_info_default)]"
    by (simp add: submissionData_def edit_hook_def widget_hook_def widget_state_def entries_def)
  have a: "executed (fst (onSave widget_hook widget_env plain_hooks)) =
     [\<lparr>url = API_DATA_CREATE, http = POST, body_tableName = JStr ''Widget'',
       body_fields = JObj [(''Name'', JStr ''Widget''), (''Status'', JStr []),
                           (''_ui_info_'', ui_info_default)],
       body_parameters = JObj []\<rparr>]"
    unfolding save_request [OF plain_gates] plain_parameters sd
    by (simp add: widget_hook_def widget_state_def widget_md_def)
  have b: "executed (fst (onSave edit_hook widget_env asking_hooks)) =
     [\<lparr>url = API_DATA_UPDATE, http = PATCH, body_tableName = JStr ''Widget'',
       body_fields = JObj [(''Name'', JStr ''Widget''), (''Status'', JStr []),
                           (''_ui_info_'', ui_info_default)],
       body_parameters = JObj [(''reason'', JStr ''edit''), (''force'', JBool True)]\<rparr>]"
    unfolding save_request [OF edit_gates] edit_parameters sd'
    by (simp add: edit_hook_def widget_hook_def widget_state_def widget_md_def)
  from a b show ?thesis by simp
qed

section \<open>Loading and the snapshot queue\<close>

lemma get_prop_not_nullish: "\<not> nullish v \<Longrightarrow> get_prop v k = Inr (obj_get (entries v) k)"
  by (cases v) (simp_all add: get_prop_def nullish_def entries_def obj_get_def)

lemma dispatched_Nil: "dispatched [] = []"
  by (simp add: dispatched_def)

lemma dispatched_Cons:
  "dispatched (x # es) = (case x of Dispatch a \<Rightarrow> [a] | _ \<Rightarrow> []) @ dispatched es"
  by (simp add: dispatched_def)

lemma dispatched_lookups: "dispatched (map LookupLabel cs) = []"
  by (induction cs) (simp_all add: dispatched_Nil dispatched_Cons)

lemma dispatched_refresh: "dispatched (map RefreshDataTable ts) = []"
  by (induction ts) (simp_all add: dispatched_Nil dispatched_Cons)

lemma dispatched_initialData: "dispatched (fst (initialData h e md snap)) = []"
  by (simp add: initialData_def Let_def dispatched_lookups)

lemma dispatched_provisional: "dispatched (fst (provisionalData h e)) = []"
  by (cases "metadata (state h)")
     (simp_all add: provisionalData_def dispatched_Nil dispatched_initialData)

lemma dispatched_startLoad:
  "dispatched (startLoad h e opts) = (if refresh opts then [] else [startAction h e opts])"
  by (simp add: startLoad_def dispatched_append dispatched_provisional dispatched_Nil
      dispatched_Cons)

lemma dispatched_before_read:
  "dispatched (before_read h e opts) = (if refresh opts then [] else [startAction h e opts])"
  by (cases "props_metadata (props h)")
     (simp_all add: before_read_def dispatched_append dispatched_startLoad dispatched_Nil
        dispatched_Cons)

lemma queue_updates_Nil: "queue_updates [] = []"
  by (simp add: queue_updates_def)

lemma queue_updates_Cons:
  "queue_updates (x # es) = (case x of SetSnapshotQueue u \<Rightarrow> [u] | _ \<Rightarrow> []) @ queue_updates es"
  by (simp add: queue_updates_def)

lemma queue_updates_append: "queue_updates (es @ es') = queue_updates es @ queue_updates es'"
  by (simp add: queue_updates_def)

lemma queue_updates_lookups: "queue_updates (map LookupLabel cs) = []"
  by (induction cs) (simp_all add: queue_updates_Nil queue_updates_Cons)

lemma queue_updates_refresh: "queue_updates (map RefreshDataTable ts) = []"
  by (induction ts) (simp_all add: queue_updates_Nil queue_updates_Cons)

lemma queue_updates_initialData: "queue_updates (fst (initialData h e md snap)) = []"
  by (simp add: initialData_def Let_def queue_updates_lookups)

lemma queue_updates_provisional: "queue_updates (fst (provisionalData h e)) = []"
  by (cases "metadata (state h)")
     (simp_all add: provisionalData_def queue_updates_Nil queue_updates_initialData)

lemma queue_updates_before_read: "queue_updates (before_read h e opts) = []"
  by (cases "props_metadata (props h)")
     (simp_all add: before_read_def startLoad_def queue_updates_append queue_updates_provisional
        queue_updates_Nil queue_updates_Cons)

lemma commit_Cons: "commit R h (x # es) = commit R (commit_effect R x h) es"
  by (simp add: commit_def)

lemma state_commit:
  "state (commit R h es) = fold (\<lambda>a s. R s a) (dispatched es) (state h)"
proof (induction es arbitrary: h)
  case Nil
  then show ?case by (simp add: dispatched_Nil commit_Nil)
next
  case (Cons x es)
  show ?case
    unfolding commit_Cons Cons.IH dispatched_Cons
    by (cases x) (simp_all add: commit_effect_def)
qed

lemma queue_commit:
  "snapshotQueue (commit R h es) = fold apply_queue (queue_updates es) (snapshotQueue h)"
proof (induction es arbitrary: h)
  case Nil
  then show ?case by (simp add: queue_updates_Nil commit_Nil)
next
  case (Cons x es)
  show ?case
    unfolding commit_Cons Cons.IH queue_updates_Cons
    by (cases x) (simp_all add: commit_effect_def)
qed

lemma props_commit: "props (commit R h es) = props h"
proof (induction es arbitrary: h)
  case Nil
  then show ?case by (simp add: commit_Nil)
next
  case (Cons x es)
  show ?case
    unfolding commit_Cons Cons.IH
    by (cases x) (simp_all add: commit_effect_def)
qed

lemma onLoad_to_read:
  assumes "fetch_made h opts"
  shows "onLoad h e opts =
     after (before_read h e opts)
       (case readRecords e (readRequest h (load_read_id h opts)) of
          None \<Rightarrow> ([], Inr ())
        | Some resp \<Rightarrow>
            if \<not> succeeded resp then ([], Inr ())
            else
              (case resp_data resp of
                 None \<Rightarrow>
                   finishLoad h e opts (load_metadata h e) (props_snapshot (props h)) True
                     (JBool False)
               | Some [] \<Rightarrow>
                   finishLoad h e opts (load_metadata h e) (props_snapshot (props h)) True
                     (JBool False)
               | Some (row # rest) \<Rightarrow>
                   (case ui_canUpdate row of
                      Inl err \<Rightarrow> ([], Inl err)
                    | Inr cu \<Rightarrow> finishLoad h e opts (load_metadata h e) row False cu)))"
proof -
  from assms have t: "props_tableName (props h) \<noteq> []"
    and c: "(nullish (props_snapshot (props h)) \<and> \<not> nullish (opt_id opts)) \<or> refresh opts"
    and s: "refresh opts \<longrightarrow> \<not> nullish (snapshot (state h))"
    by (simp_all add: fetch_made_def)
  have rid: "(if refresh opts
              then get_prop (snapshot (state h)) (props_tableName (props h) @ ''Id'')
              else Inr (opt_id opts)) = Inr (load_read_id h opts)"
    using s by (simp add: load_read_id_def get_prop_not_nullish)
  show ?thesis
  proof (cases "props_metadata (props h)")
    case None
    have lm: "load_metadata h e = fetchMetadata e (props_tableName (props h))"
      by (simp add: load_metadata_def None)
    show ?thesis
      unfolding lm using t c
      by (simp add: onLoad_def readStage_def rid before_read_def None after_def)
  next
    case (Some md)
    have lm: "load_metadata h e = Some md"
      by (simp add: load_metadata_def Some)
    show ?thesis
      unfolding lm using t c
      by (simp add: onLoad_def readStage_def rid before_read_def Some after_def)
  qed
qed

text \<open>
  C9. When a load makes its read and the read fails at transport level, the load returns
  there: the read is its last effect. A refresh has dispatched nothing, so the container
  is as it was; any other load has dispatched \<^verbatim>\<open>START_INITIAL_LOAD\<close> and nothing since, so
  the container stays in the state that action put it in, for every reducer.
\<close>

theorem failed_fetch_aborts:
  assumes made: "fetch_made h opts"
    and failed: "fetch_failed e (readRequest h (load_read_id h opts))"
  shows "onLoad h e opts = (before_read h e opts, Inr ()) \<and>
     dispatched (fst (onLoad h e opts)) = (if refresh opts then [] else [startAction h e opts]) \<and>
     state (commit R h (fst (onLoad h e opts))) =
       (if refresh opts then state h else R (state h) (startAction h e opts)) \<and>
     snapshotQueue (commit R h (fst (onLoad h e opts))) = snapshotQueue h"
proof -
  have run: "onLoad h e opts = (before_read h e opts, Inr ())"
    unfolding onLoad_to_read [OF made]
    using failed
    by (cases "readRecords e (readRequest h (load_read_id h opts))")
       (simp_all add: fetch_failed_def after_def)
  show ?thesis
    unfolding run
    by (simp add: state_commit queue_commit dispatched_before_read queue_updates_before_read)
qed

lemma finishLoad_missing:
  assumes "(if \<not> nullish (props_snapshot (props h)) then ui_canUpdate (props_snapshot (props h))
            else Inr (JBool False)) = Inr cu"
  shows "finishLoad h e opts (load_metadata h e) (props_snapshot (props h)) True (JBool False) =
           (after_read h e opts @ [Dispatch (INITIAL_LOAD_COMPLETE (missing_payload h e cu))] @
            drainQueue h e, Inr ())"
  unfolding finishLoad_def assms
  by (simp add: after_read_def missing_payload_def)

lemma onLoad_zero_rows:
  assumes made: "fetch_made h opts"
    and empty: "fetch_empty e (readRequest h (load_read_id h opts))"
    and cu: "(if \<not> nullish (props_snapshot (props h)) then ui_canUpdate (props_snapshot (props h))
            else Inr (JBool False)) = Inr cu"
  shows "onLoad h e opts =
           (before_read h e opts @ after_read h e opts @
            [Dispatch (INITIAL_LOAD_COMPLETE (missing_payload h e cu))] @ drainQueue h e, Inr ())"
proof -
  from empty obtain resp where
    r: "readRecords e (readRequest h (load_read_id h opts)) = Some resp"
    and ok: "succeeded resp"
    and rows: "resp_data resp = None \<or> resp_data resp = Some []"
    by (cases "readRecords e (readRequest h (load_read_id h opts))")
       (auto simp: fetch_empty_def split: option.splits)
  from rows show ?thesis
    unfolding onLoad_to_read [OF made] r
    by (auto simp: ok finishLoad_missing [OF cu] after_def)
qed

lemma dispatched_after_read: "dispatched (after_read h e opts) = []"
  by (simp add: after_read_def dispatched_append dispatched_initialData dispatched_Nil
      dispatched_Cons reloadDataTables_def dispatched_refresh)

lemma queue_updates_after_read: "queue_updates (after_read h e opts) = []"
  by (simp add: after_read_def queue_updates_append queue_updates_initialData queue_updates_Nil
      queue_updates_Cons reloadDataTables_def queue_updates_refresh)

lemma drainQueue_stale:
  assumes "snapshotQueue h = [] \<or> metadata (state h) = None"
  shows "dispatched (drainQueue h e) = []"
  using assms
  by (auto simp: drainQueue_def setSnapshot_def dispatched_Nil dispatched_Cons)

lemma fold_reducer_snoc:
  "fold (\<lambda>a s. R s a) (as @ [a]) s = R (fold (\<lambda>a s. R s a) as s) a"
  by simp

lemma operation_CREATE:
  "operation h = CREATE \<longleftrightarrow>
     nullish (props_snapshot (props h)) \<and> nullish (snapshot (state h))"
  by (simp add: operation_def)

lemma fold_reducer_two:
  "fold (\<lambda>a s. R s a) [a, b] s = R (R s a) b"
  by simp

text \<open>
  C8. When a load makes its read for a container whose operation is \<^verbatim>\<open>CREATE\<close> and the read
  succeeds with no rows, the load completes: it dispatches \<^verbatim>\<open>START_INITIAL_LOAD\<close> and then
  \<^verbatim>\<open>INITIAL_LOAD_COMPLETE\<close> with \<^verbatim>\<open>canRead: false\<close>, a message that ends with the table name,
  and no snapshot. For a reducer that publishes the snapshot of that action, the container
  then has no snapshot and its operation is still \<^verbatim>\<open>CREATE\<close>. The load ends by draining the
  snapshot queue of its render; when that queue is empty or that render knows no schema,
  nothing more is dispatched and the container stays so.
\<close>

theorem missing_record:
  assumes made: "fetch_made h opts"
    and empty: "fetch_empty e (readRequest h (load_read_id h opts))"
    and start: "operation h = CREATE"
    and publishes: "\<forall>s p. snapshot (R s (INITIAL_LOAD_COMPLETE p)) = lc_snapshot p"
  shows "onLoad h e opts = (missing_completion h e opts @ drainQueue h e, Inr ()) \<and>
     dispatched (missing_completion h e opts) =
       [startAction h e opts, INITIAL_LOAD_COMPLETE (missing_payload h e (JBool False))] \<and>
     fst (lc_canRead (missing_payload h e (JBool False))) = False \<and>
     (\<exists>pre. snd (lc_canRead (missing_payload h e (JBool False))) = pre @ props_tableName (props h)) \<and>
     nullish (lc_snapshot (missing_payload h e (JBool False))) \<and>
     nullish (snapshot (state (commit R h (missing_completion h e opts)))) \<and>
     operation (commit R h (missing_completion h e opts)) = CREATE \<and>
     (snapshotQueue h = [] \<or> metadata (state h) = None \<longrightarrow>
        dispatched (fst (onLoad h e opts)) =
          [startAction h e opts, INITIAL_LOAD_COMPLETE (missing_payload h e (JBool False))] \<and>
        nullish (snapshot (state (commit R h (fst (onLoad h e opts))))) \<and>
        operation (commit R h (fst (onLoad h e opts))) = CREATE)"
proof -
  from start have absent: "nullish (props_snapshot (props h))"
    and unset: "nullish (snapshot (state h))"
    by (simp_all add: operation_CREATE)
  from made unset have nr: "\<not> refresh opts"
    by (auto simp: fetch_made_def)
  have cu: "(if \<not> nullish (props_snapshot (props h)) then ui_canUpdate (props_snapshot (props h))
            else Inr (JBool False)) = Inr (JBool False)"
    using absent by simp
  have run: "onLoad h e opts = (missing_completion h e opts @ drainQueue h e, Inr ())"
    unfolding onLoad_zero_rows [OF made empty cu] missing_completion_def by simp
  have d: "dispatched (missing_completion h e opts) =
       [startAction h e opts, INITIAL_LOAD_COMPLETE (missing_payload h e (JBool False))]"
    unfolding missing_completion_def
    using nr
    by (simp add: dispatched_append dispatched_before_read dispatched_after_read
        dispatched_Cons dispatched_Nil)
  have l: "lc_snapshot (missing_payload h e (JBool False)) = props_snapshot (props h)"
    by (simp add: missing_payload_def)
  have c: "fst (lc_canRead (missing_payload h e (JBool False))) = False"
    by (simp add: missing_payload_def)
  have m: "\<exists>pre. snd (lc_canRead (missing_payload h e (JBool False))) =
             pre @ props_tableName (props h)"
    by (simp add: missing_payload_def missing_message_def)
  have n: "nullish (lc_snapshot (missing_payload h e (JBool False)))"
    unfolding l by (rule absent)
  have s: "snapshot (state (commit R h (missing_completion h e opts))) =
      lc_snapshot (missing_payload h e (JBool False))"
    unfolding state_commit d fold_reducer_two
    using publishes by simp
  have s': "nullish (snapshot (state (commit R h (missing_completion h e opts))))"
    unfolding s by (rule n)
  have o: "operation (commit R h (missing_completion h e opts)) = CREATE"
    unfolding operation_CREATE props_commit using absent s' by simp
  have rest: "dispatched (fst (onLoad h e opts)) =
          [startAction h e opts, INITIAL_LOAD_COMPLETE (missing_payload h e (JBool False))] \<and>
        nullish (snapshot (state (commit R h (fst (onLoad h e opts))))) \<and>
        operation (commit R h (fst (onLoad h e opts))) = CREATE"
    if queue: "snapshotQueue h = [] \<or> metadata (state h) = None"
  proof -
    have d': "dispatched (fst (onLoad h e opts)) =
          [startAction h e opts, INITIAL_LOAD_COMPLETE (missing_payload h e (JBool False))]"
      unfolding run fst_conv dispatched_append d drainQueue_stale [OF queue] by simp
    have t: "snapshot (state (commit R h (fst (onLoad h e opts)))) =
        lc_snapshot (missing_payload h e (JBool False))"
      unfolding state_commit d' fold_reducer_two
      using publishes by simp
    have t': "nullish (snapshot (state (commit R h (fst (onLoad h e opts)))))"
      unfolding t by (rule n)
    have o': "operation (commit R h (fst (onLoad h e opts))) = CREATE"
      unfolding operation_CREATE props_commit using absent t' by simp
    from d' t' o' show ?thesis by (intro conjI)
  qed
  show ?thesis
    by (intro conjI impI run d c m n s' o rest [THEN conjunct1] rest [THEN conjunct2, THEN conjunct1]
        rest [THEN conjunct2, THEN conjunct2])
qed

lemma widget_cleared:
  "clearedValues None t widget_md =
     [(''Name'', JStr []), (''Status'', JStr []), (''_ui_info_'', ui_info_default)]"
  by (simp add: clearedValues_def widget_md_def numericDefaults_def stringDefaults_def
      booleanDefaults_def dateDefaults_def nullableLookupDefaults_def reduce_fields_def
      assign_all_def is_numeric_def)

lemma fresh_made: "fetch_made fresh_hook load_opts"
  by (simp add: fetch_made_def fresh_hook_def widget_props_def load_opts_def nullish_def)

lemma fresh_read_id: "load_read_id fresh_hook load_opts = JStr ''1''"
  by (simp add: load_read_id_def load_opts_def)

lemma fresh_failed: "fetch_failed widget_env (readRequest fresh_hook (load_read_id fresh_hook load_opts))"
  by (simp add: fetch_failed_def widget_env_def)

lemma fresh_start:
  "startAction fresh_hook e load_opts =
     START_INITIAL_LOAD \<lparr>sl_tableName = ''Widget'', sl_data = Undefined, sl_forceIsLoading = False\<rparr>"
  by (simp add: startAction_def provisionalData_def fresh_hook_def fresh_state_def
      widget_props_def load_opts_def)

theorem failed_fetch_aborts_witness:
  "onLoad fresh_hook widget_env load_opts =
     ([Dispatch (START_INITIAL_LOAD
         \<lparr>sl_tableName = ''Widget'', sl_data = Undefined, sl_forceIsLoading = False\<rparr>),
       FetchMetadata ''Widget'',
       ReadRecords \<lparr>rr_tableName = ''Widget'', rr_fields = [''*''], rr_maxResults = 1, rr_page = 1,
                    rr_id = JStr ''1''\<rparr>], Inr ()) \<and>
   state (commit formbuilderReducer fresh_hook (fst (onLoad fresh_hook widget_env load_opts))) =
     fresh_state\<lparr>stype := ''START_INITIAL_LOAD'', isLoading := True\<rparr>"
proof -
  have b: "before_read fresh_hook widget_env load_opts =
     [Dispatch (START_INITIAL_LOAD
         \<lparr>sl_tableName = ''Widget'', sl_data = Undefined, sl_forceIsLoading = False\<rparr>),
       FetchMetadata ''Widget'',
       ReadRecords \<lparr>rr_tableName = ''Widget'', rr_fields = [''*''], rr_maxResults = 1, rr_page = 1,
                    rr_id = JStr ''1''\<rparr>]"
    by (simp add: before_read_def startLoad_def fresh_start fresh_read_id readRequest_def)
       (simp add: provisionalData_def fresh_hook_def fresh_state_def widget_props_def load_opts_def)
  note r = failed_fetch_aborts [OF fresh_made fresh_failed, of formbuilderReducer]
  have nr: "\<not> refresh load_opts" by (simp add: load_opts_def)
  have run: "onLoad fresh_hook widget_env load_opts =
      (before_read fresh_hook widget_env load_opts, Inr ())"
    using r by (rule conjunct1)
  have st: "state (commit formbuilderReducer fresh_hook
        (fst (onLoad fresh_hook widget_env load_opts))) =
      formbuilderReducer (state fresh_hook) (startAction fresh_hook widget_env load_opts)"
    using r [THEN conjunct2, THEN conjunct2, THEN conjunct1] nr by (simp only: if_False)
  have red: "formbuilderReducer (state fresh_hook) (startAction fresh_hook widget_env load_opts) =
      fresh_state\<lparr>stype := ''START_INITIAL_LOAD'', isLoading := True\<rparr>"
    unfolding fresh_start by (simp add: formbuilderReducer_def fresh_hook_def fresh_state_def)
  show ?thesis
    unfolding st red unfolding run b by simp
qed

lemma gone_empty: "fetch_empty gone_env (readRequest h (load_read_id h opts))"
  by (simp add: fetch_empty_def gone_env_def)

lemma fresh_absent: "nullish (props_snapshot (props fresh_hook))"
  by (simp add: fresh_hook_def widget_props_def nullish_def)

lemma fresh_queue: "snapshotQueue fresh_hook = [] \<or> metadata (state fresh_hook) = None"
  by (simp add: fresh_hook_def)

lemma reducer_publishes:
  "\<forall>s p. snapshot (formbuilderReducer s (INITIAL_LOAD_COMPLETE p)) = lc_snapshot p"
  by (simp add: formbuilderReducer_def)

lemma fresh_create: "operation fresh_hook = CREATE"
  by (simp add: operation_def fresh_hook_def fresh_state_def widget_props_def nullish_def)

theorem missing_record_witness:
  "snd (onLoad fresh_hook gone_env load_opts) = Inr () \<and>
   dispatched (fst (onLoad fresh_hook gone_env load_opts)) =
     [START_INITIAL_LOAD \<lparr>sl_tableName = ''Widget'', sl_data = Undefined, sl_forceIsLoading = False\<rparr>,
      INITIAL_LOAD_COMPLETE (missing_payload fresh_hook gone_env (JBool False))] \<and>
   lc_canRead (missing_payload fresh_hook gone_env (JBool False)) =
     (False, ''This record doesn'' @ [CHR 0x27] @
             ''t exist or you are missing the required permissions to access Widget'') \<and>
   lc_snapshot (missing_payload fresh_hook gone_env (JBool False)) = Undefined \<and>
   nullish (snapshot (state (commit formbuilderReducer fresh_hook
       (fst (onLoad fresh_hook gone_env load_opts))))) \<and>
   operation (commit formbuilderReducer fresh_hook
       (fst (onLoad fresh_hook gone_env load_opts))) = CREATE"
proof -
  note r = missing_record [OF fresh_made gone_empty fresh_create reducer_publishes]
  have ok: "snd (onLoad fresh_hook gone_env load_opts) = Inr ()"
    using r [THEN conjunct1] by simp
  note fin = r [THEN conjunct2, THEN conjunct2, THEN conjunct2, THEN conjunct2, THEN conjunct2,
      THEN conjunct2, THEN conjunct2, THEN mp, OF fresh_queue]
  have d: "dispatched (fst (onLoad fresh_hook gone_env load_opts)) =
     [startAction fresh_hook gone_env load_opts,
      INITIAL_LOAD_COMPLETE (missing_payload fresh_hook gone_env (JBool False))]"
    using fin by (rule conjunct1)
  have sn: "nullish (snapshot (state (commit formbuilderReducer fresh_hook
       (fst (onLoad fresh_hook gone_env load_opts)))))"
    using fin [THEN conjunct2] by (rule conjunct1)
  have op: "operation (commit formbuilderReducer fresh_hook
       (fst (onLoad fresh_hook gone_env load_opts))) = CREATE"
    using fin [THEN conjunct2] by (rule conjunct2)
  have msg: "lc_canRead (missing_payload fresh_hook gone_env (JBool False)) =
     (False, ''This record doesn'' @ [CHR 0x27] @
             ''t exist or you are missing the required permissions to access Widget'')"
    by (simp add: missing_payload_def missing_message_def fresh_hook_def widget_props_def)
  have u: "lc_snapshot (missing_payload fresh_hook gone_env (JBool False)) = Undefined"
    by (simp add: missing_payload_def fresh_hook_def widget_props_def)
  have d': "dispatched (fst (onLoad fresh_hook gone_env load_opts)) =
     [START_INITIAL_LOAD \<lparr>sl_tableName = ''Widget'', sl_data = Undefined, sl_forceIsLoading = False\<rparr>,
      INITIAL_LOAD_COMPLETE (missing_payload fresh_hook gone_env (JBool False))]"
    unfolding d fresh_start by (rule refl)
  show ?thesis
    by (intro conjI ok d' msg u sn op)
qed

lemma setSnapshot_unknown_schema:
  assumes "metadata (state h) = None"
  shows "setSnapshot h e s f = [SetSnapshotQueue (Append s)]"
  using assms by (simp add: setSnapshot_def)

lemma drainQueue_unknown_schema:
  assumes "metadata (state h) = None" and "snapshotQueue h \<noteq> []"
  shows "drainQueue h e =
           [SetSnapshotQueue Pop, SetSnapshotQueue (Append (last (snapshotQueue h))),
            SetSnapshotQueue (Replace [])]"
  using assms by (simp add: drainQueue_def setSnapshot_def)

lemma snapshotQueueEffect_applies:
  assumes "metadata (state h) = Some md"
    and "stype (state h) = ''INITIAL_LOAD_COMPLETE''"
    and "snapshotQueue h \<noteq> []"
  shows "dispatched (snapshotQueueEffect h e) =
           [SET_DATA_TO_EDIT
              \<lparr>de_data = snd (initialData h e (Some md) (last (snapshotQueue h))),
               de_snapshot = last (snapshotQueue h),
               de_canUpdate = props_canUpdate (props h),
               de_forceIsLoading = False\<rparr>] \<and>
         snapshotQueue (commit R h (snapshotQueueEffect h e)) = []"
proof -
  have run: "snapshotQueueEffect h e =
      SetSnapshotQueue Pop #
      (fst (initialData h e (Some md) (last (snapshotQueue h))) @
       [Dispatch (SET_DATA_TO_EDIT
              \<lparr>de_data = snd (initialData h e (Some md) (last (snapshotQueue h))),
               de_snapshot = last (snapshotQueue h),
               de_canUpdate = props_canUpdate (props h),
               de_forceIsLoading = False\<rparr>)]) @
      [SetSnapshotQueue (Replace [])]"
    using assms by (simp add: snapshotQueueEffect_def setSnapshot_def)
  show ?thesis
    unfolding run
    by (simp add: dispatched_Cons dispatched_append dispatched_initialData dispatched_Nil
        queue_commit queue_updates_Cons queue_updates_append queue_updates_initialData
        queue_updates_Nil)
qed

lemma onLoad_no_read:
  assumes t: "props_tableName (props h) \<noteq> []"
    and nr: "\<not> refresh opts"
    and id: "nullish (opt_id opts)"
    and absent: "nullish (props_snapshot (props h))"
  shows "onLoad h e opts =
           (startLoad h e opts @
            (case props_metadata (props h) of
               None \<Rightarrow> [FetchMetadata (props_tableName (props h))]
             | Some md \<Rightarrow> []) @
            after_read h e opts @
            [Dispatch (INITIAL_LOAD_COMPLETE
               ((missing_payload h e (JBool False))\<lparr>lc_canRead := (True, [])\<rparr>))] @
            drainQueue h e, Inr ())"
proof (cases "props_metadata (props h)")
  case None
  have lm: "load_metadata h e = fetchMetadata e (props_tableName (props h))"
    by (simp add: load_metadata_def None)
  show ?thesis
    using t nr id absent
    by (simp add: onLoad_def readStage_def finishLoad_def None after_def after_read_def
        missing_payload_def lm)
next
  case (Some md)
  have lm: "load_metadata h e = Some md"
    by (simp add: load_metadata_def Some)
  show ?thesis
    using t nr id absent
    by (simp add: onLoad_def readStage_def finishLoad_def Some after_def after_read_def
        missing_payload_def lm)
qed

lemma lookupLabelCalls_None: "lookupLabelCalls None md = []"
  unfolding lookupLabelCalls_def by (induction "md_fields md" arbitrary: md) auto

lemma waiting_load:
  "onLoad waiting_hook widget_env mount_opts =
     ([Dispatch (START_INITIAL_LOAD
         \<lparr>sl_tableName = ''Widget'', sl_data = Undefined, sl_forceIsLoading = False\<rparr>),
       FetchMetadata ''Widget'',
       GetTablePermissions ''Widget'',
       Dispatch (INITIAL_LOAD_COMPLETE
         \<lparr>lc_metadata = Some widget_md, lc_snapshot = Undefined,
          lc_data = JObj [(''Name'', JStr []), (''Status'', JStr []),
                          (''_ui_info_'', ui_info_default)],
          lc_canUpdate = JBool False, lc_canCreate = True, lc_canRead = (True, [])\<rparr>),
       SetSnapshotQueue Pop,
       SetSnapshotQueue (Append queued_widget),
       SetSnapshotQueue (Replace [])], Inr ())"
proof -
  have t: "props_tableName (props waiting_hook) \<noteq> []"
    by (simp add: waiting_hook_def fresh_hook_def widget_props_def)
  have nr: "\<not> refresh mount_opts" by (simp add: mount_opts_def)
  have id: "nullish (opt_id mount_opts)" by (simp add: mount_opts_def nullish_def)
  have absent: "nullish (props_snapshot (props waiting_hook))"
    by (simp add: waiting_hook_def fresh_hook_def widget_props_def nullish_def)
  have m: "metadata (state waiting_hook) = None"
    by (simp add: waiting_hook_def fresh_hook_def fresh_state_def)
  have q: "snapshotQueue waiting_hook \<noteq> []" "last (snapshotQueue waiting_hook) = queued_widget"
    by (simp_all add: waiting_hook_def)
  have pm: "props_metadata (props waiting_hook) = None"
    by (simp add: waiting_hook_def fresh_hook_def widget_props_def)
  have sl: "startLoad waiting_hook widget_env mount_opts =
      [Dispatch (START_INITIAL_LOAD
         \<lparr>sl_tableName = ''Widget'', sl_data = Undefined, sl_forceIsLoading = False\<rparr>)]"
    by (simp add: startLoad_def startAction_def provisionalData_def m nr)
       (simp add: waiting_hook_def fresh_hook_def widget_props_def mount_opts_def)
  have lm: "load_metadata waiting_hook widget_env = Some widget_md"
    by (simp add: load_metadata_def pm widget_env_def)
  have idata: "initialData waiting_hook widget_env (Some widget_md) Undefined =
      ([], JObj [(''Name'', JStr []), (''Status'', JStr []), (''_ui_info_'', ui_info_default)])"
    by (simp add: initialData_def getInitialData_def getClearedValues_def widget_cleared lookupLabelCalls_None
        waiting_hook_def fresh_hook_def widget_props_def assign_all_def)
  have u: "props_snapshot (props waiting_hook) = Undefined"
    by (simp add: waiting_hook_def fresh_hook_def widget_props_def)
  have ar: "after_read waiting_hook widget_env mount_opts = [GetTablePermissions ''Widget'']"
    by (simp add: after_read_def lm u idata mount_opts_def)
       (simp add: waiting_hook_def fresh_hook_def widget_props_def)
  have mp: "(missing_payload waiting_hook widget_env (JBool False))\<lparr>lc_canRead := (True, [])\<rparr> =
         \<lparr>lc_metadata = Some widget_md, lc_snapshot = Undefined,
          lc_data = JObj [(''Name'', JStr []), (''Status'', JStr []),
                          (''_ui_info_'', ui_info_default)],
          lc_canUpdate = JBool False, lc_canCreate = True, lc_canRead = (True, [])\<rparr>"
    by (simp add: missing_payload_def lm u idata)
       (simp add: waiting_hook_def fresh_hook_def widget_props_def widget_env_def)
  have tn: "props_tableName (props waiting_hook) = ''Widget''"
    by (simp add: waiting_hook_def fresh_hook_def widget_props_def)
  show ?thesis
    unfolding onLoad_no_read [OF t nr id absent] sl pm ar mp
      drainQueue_unknown_schema [OF m q(1)] q(2)
    by (simp add: tn)
qed

text \<open>
  C1 at a render that has no schema yet. \<^verbatim>\<open>setSnapshot\<close> dispatches nothing and appends the
  snapshot to the queue. A load started from the render that follows completes with its
  own buffer; its drain pops the snapshot and hands it to the \<^verbatim>\<open>setSnapshot\<close> of the same
  render, whose \<^verbatim>\<open>state.metadata\<close> is still \<^verbatim>\<open>undefined\<close>, so the snapshot is appended again
  and the queue is then set to empty. No \<^verbatim>\<open>SET_DATA_TO_EDIT\<close> is dispatched, the buffer is
  the load's, and the effect of lines 641 to 646 finds an empty queue.
\<close>

theorem queued_snapshot_dropped:
  "setSnapshot fresh_hook widget_env queued_widget None = [SetSnapshotQueue (Append queued_widget)] \<and>
   commit formbuilderReducer fresh_hook (setSnapshot fresh_hook widget_env queued_widget None) =
     waiting_hook \<and>
   dispatched (fst (onLoad waiting_hook widget_env mount_opts)) =
     [START_INITIAL_LOAD \<lparr>sl_tableName = ''Widget'', sl_data = Undefined, sl_forceIsLoading = False\<rparr>,
      INITIAL_LOAD_COMPLETE
         \<lparr>lc_metadata = Some widget_md, lc_snapshot = Undefined,
          lc_data = JObj [(''Name'', JStr []), (''Status'', JStr []),
                          (''_ui_info_'', ui_info_default)],
          lc_canUpdate = JBool False, lc_canCreate = True, lc_canRead = (True, [])\<rparr>] \<and>
   queue_updates (fst (onLoad waiting_hook widget_env mount_opts)) =
     [Pop, Append queued_widget, Replace []] \<and>
   snapshotQueue (commit formbuilderReducer waiting_hook
       (fst (onLoad waiting_hook widget_env mount_opts))) = [] \<and>
   data (state (commit formbuilderReducer waiting_hook
       (fst (onLoad waiting_hook widget_env mount_opts)))) =
     JObj [(''Name'', JStr []), (''Status'', JStr []), (''_ui_info_'', ui_info_default)] \<and>
   snapshotQueueEffect (commit formbuilderReducer waiting_hook
       (fst (onLoad waiting_hook widget_env mount_opts))) widget_env = []"
proof -
  have m: "metadata (state fresh_hook) = None"
    by (simp add: fresh_hook_def fresh_state_def)
  have a: "setSnapshot fresh_hook widget_env queued_widget None =
      [SetSnapshotQueue (Append queued_widget)]"
    by (rule setSnapshot_unknown_schema [OF m])
  have b: "commit formbuilderReducer fresh_hook [SetSnapshotQueue (Append queued_widget)] =
      waiting_hook"
    by (simp add: commit_def commit_effect_def waiting_hook_def fresh_hook_def)
  have d: "dispatched (fst (onLoad waiting_hook widget_env mount_opts)) =
     [START_INITIAL_LOAD \<lparr>sl_tableName = ''Widget'', sl_data = Undefined, sl_forceIsLoading = False\<rparr>,
      INITIAL_LOAD_COMPLETE
         \<lparr>lc_metadata = Some widget_md, lc_snapshot = Undefined,
          lc_data = JObj [(''Name'', JStr []), (''Status'', JStr []),
                          (''_ui_info_'', ui_info_default)],
          lc_canUpdate = JBool False, lc_canCreate = True, lc_canRead = (True, [])\<rparr>]"
    unfolding waiting_load by (simp add: dispatched_Cons dispatched_Nil)
  have u: "queue_updates (fst (onLoad waiting_hook widget_env mount_opts)) =
     [Pop, Append queued_widget, Replace []]"
    unfolding waiting_load by (simp add: queue_updates_Cons queue_updates_Nil)
  have q: "snapshotQueue (commit formbuilderReducer waiting_hook
       (fst (onLoad waiting_hook widget_env mount_opts))) = []"
    unfolding queue_commit u by simp
  have s: "data (state (commit formbuilderReducer waiting_hook
       (fst (onLoad waiting_hook widget_env mount_opts)))) =
     JObj [(''Name'', JStr []), (''Status'', JStr []), (''_ui_info_'', ui_info_default)]"
    unfolding state_commit d by (simp add: formbuilderReducer_def)
  have e: "snapshotQueueEffect (commit formbuilderReducer waiting_hook
       (fst (onLoad waiting_hook widget_env mount_opts))) widget_env = []"
    by (simp add: snapshotQueueEffect_def q)
  show ?thesis
    unfolding a b d u q s e by simp
qed

end
